theory Spec2Isabelle
  imports Main "HOL-Library.Word"
begin

section \<open>Object formats: a shallow embedding of format.c\<close>

text \<open>
  The file format.c includes mpm.h, which is not among the sources. The types, constants,
  checking macros, ring primitives, arena primitives and the writer it takes from there are
  modelled below, each under a comment that says so. The functions of format.c itself
  (\<open>FormatCheck\<close>, \<open>FormatDefaultClass\<close>, \<open>FormatCreate\<close>, \<open>FormatDestroy\<close>, \<open>FormatArena\<close>,
  \<open>FormatDescribe\<close>) are translated statement by statement.

  Memory is typed: every address holds one cell of each structure type, and a structure
  pointer is the address of its cell. \<open>NULL\<close> is address 0. Ring pointers are the addresses
  of the ring nodes embedded in the two structures.
\<close>

subsection \<open>Types and constants taken from mpm.h\<close>

type_synonym Addr = nat

abbreviation (input) NULL :: Addr where "NULL \<equiv> 0"

text \<open>Modelled from the spec: the validity signature. The constants \<open>FormatSig\<close>,
  \<open>ArenaSig\<close> and \<open>SigInvalid\<close> are not in src; the spec has one sentinel per structure kind
  and an invalid value that matches none of them. \<open>SigOther\<close> is any other stored word.\<close>

datatype Sig = SigInvalid | FormatSig | ArenaSig | SigOther nat

text \<open>Modelled from the spec: result codes. \<open>ResOK\<close> is success; every other code is a
  failure (\<open>ResFail\<close> with its number).\<close>

datatype Res = ResOK | ResFail nat

text \<open>Modelled from the spec: the variety tag. Exactly two varieties are recognized; the
  field is an integer, so it can also hold a value that is neither.\<close>

datatype FormatVariety = FormatVarietyA | FormatVarietyB | FormatVarietyOther nat

text \<open>Modelled from the spec: a function pointer is null, the address of the static
  function \<open>FormatDefaultClass\<close> of format.c, or the address of a function of the client.\<close>

datatype Fun = FunNULL | FormatDefaultClassFun | ClientFun nat

text \<open>Modelled from the spec: the addresses of ring nodes. The nodes that format.c handles
  are embedded in the two structures: \<open>ArenaFormatRing a\<close> is \<open>&a->formatRing\<close> and
  \<open>FormatArenaRing f\<close> is \<open>&f->arenaRing\<close>. A \<open>Ring\<close> is a pointer to a node; \<open>None\<close> is the
  null ring pointer.\<close>

datatype RingNode = ArenaFormatRing Addr | FormatArenaRing Addr

type_synonym Ring = "RingNode option"

text \<open>Modelled from the spec: the intrusive ring node (\<open>RingStruct\<close>) of a circular
  doubly-linked list, its forward and its back link.\<close>

record RingStruct =
  next' :: Ring
  prev' :: Ring

text \<open>Modelled from the spec: the fields of the arena that format.c reads or writes: its
  signature, its own serial number (printed by \<open>FormatDescribe\<close>), the serial-issuing
  counter \<open>formatSerial\<close> and the head node of the ring of its formats.\<close>

record (overloaded) ('w::len) ArenaStruct =
  sig :: Sig
  serial :: "'w word"
  formatSerial :: "'w word"
  formatRing :: RingStruct

text \<open>Modelled from the spec: the format descriptor (\<open>FormatStruct\<close>), with the fields
  that format.c assigns in \<open>FormatCreate\<close>. The field \<open>class\<close> is written \<open>class'\<close>.\<close>

record (overloaded) ('w::len) FormatStruct =
  sig :: Sig
  serial :: "'w word"
  arena :: Addr
  arenaRing :: RingStruct
  alignment :: "'w word"
  variety :: FormatVariety
  scan :: Fun
  skip :: Fun
  move :: Fun
  isMoved :: Fun
  copy :: Fun
  pad :: Fun
  class' :: Fun

text \<open>The state: the cells of the two structure types, the cells that hold a \<open>Format\<close>
  (written through the out-parameter \<open>formatReturn\<close>), and the blocks the arenas have
  handed out and not got back, as pairs of arena and block address.\<close>

record (overloaded) ('w::len) mpm_state =
  formats :: "Addr \<Rightarrow> 'w FormatStruct"
  arenas :: "Addr \<Rightarrow> 'w ArenaStruct"
  formatRefs :: "Addr \<Rightarrow> Addr"
  allocated :: "(Addr \<times> Addr) set"

subsection \<open>Assertions\<close>

text \<open>Modelled from the spec: the assertion layer of mpm.h (\<open>AVER\<close>, \<open>AVERT\<close>, \<open>CHECKS\<close>,
  \<open>CHECKU\<close>, \<open>CHECKL\<close>), which is not in src. A failed check or assertion is a hard stop that
  identifies the check; there is one identity for each check of \<open>FormatCheck\<close> and each
  \<open>AVER\<close> of format.c.\<close>

datatype assertion =
    SigCheck_Format
  | CheckU_Arena
  | Check_serial
  | Check_variety
  | Check_arenaRing
  | Check_alignment
  | Check_scan
  | Check_skip
  | Check_move
  | Check_isMoved
  | Check_copy
  | Check_pad
  | Check_class
  | Aver_object
  | Aver_formatReturn
  | Aver_varietyA
  | Avert_Format

text \<open>How a call can stop without returning: at a failed assertion, or at the fault of
  following a null ring link.\<close>

datatype error = AssertFail assertion | NullDeref

text \<open>Modelled from the spec: \<open>ASSERT(cond)\<close>, to which every checking macro comes down: go
  on with the rest \<open>k\<close> when the condition holds, stop with the identity of the check when
  it does not.\<close>

definition ASSERT :: "assertion \<Rightarrow> bool \<Rightarrow> (error + 'a) \<Rightarrow> error + 'a" where
  "ASSERT c cond k = (if cond then k else Inl (AssertFail c))"

text \<open>Sequencing: the second statement runs in the result of the first, unless the first
  stopped.\<close>

definition bindE :: "(error + 'a) \<Rightarrow> ('a \<Rightarrow> error + 'b) \<Rightarrow> error + 'b" where
  "bindE m k = (case m of Inl e \<Rightarrow> Inl e | Inr x \<Rightarrow> k x)"

text \<open>Modelled from the spec: the test of \<open>CHECKS(Format, format)\<close>, the validity signature
  matches the sentinel of the structure kind: the pointer is not null and the cell carries
  \<open>FormatSig\<close>.\<close>

definition CHECKT_Format :: "('w::len) mpm_state \<Rightarrow> Addr \<Rightarrow> bool" where
  "CHECKT_Format st format =
     (format \<noteq> NULL \<and> FormatStruct.sig (formats st format) = FormatSig)"

text \<open>Modelled from the spec: the test of \<open>CHECKU(Arena, format->arena)\<close>, the check of the
  owning arena that a descriptor makes (it catches an arena that was destroyed or
  corrupted): the pointer is not null and the cell carries \<open>ArenaSig\<close>.\<close>

definition CHECKT_Arena :: "('w::len) mpm_state \<Rightarrow> Addr \<Rightarrow> bool" where
  "CHECKT_Arena st a = (a \<noteq> NULL \<and> ArenaStruct.sig (arenas st a) = ArenaSig)"

text \<open>Modelled from the spec: \<open>FUNCHECK\<close>, a function pointer is not null.\<close>

definition FUNCHECK :: "Fun \<Rightarrow> bool" where
  "FUNCHECK f = (f \<noteq> FunNULL)"

subsection \<open>Ring primitives\<close>

text \<open>Reading and writing the node behind a ring pointer, in the structure that embeds it.\<close>

definition ring_get :: "('w::len) mpm_state \<Rightarrow> RingNode \<Rightarrow> RingStruct" where
  "ring_get st r =
     (case r of ArenaFormatRing a \<Rightarrow> formatRing (arenas st a)
              | FormatArenaRing f \<Rightarrow> arenaRing (formats st f))"

definition ring_set :: "('w::len) mpm_state \<Rightarrow> RingNode \<Rightarrow> RingStruct \<Rightarrow> 'w mpm_state" where
  "ring_set st r v =
     (case r of
        ArenaFormatRing a \<Rightarrow> st\<lparr>arenas := (arenas st)(a := (arenas st a)\<lparr>formatRing := v\<rparr>)\<rparr>
      | FormatArenaRing f \<Rightarrow> st\<lparr>formats := (formats st)(f := (formats st f)\<lparr>arenaRing := v\<rparr>)\<rparr>)"

definition set_next :: "('w::len) mpm_state \<Rightarrow> RingNode \<Rightarrow> Ring \<Rightarrow> 'w mpm_state" where
  "set_next st r v = ring_set st r ((ring_get st r)\<lparr>next' := v\<rparr>)"

definition set_prev :: "('w::len) mpm_state \<Rightarrow> RingNode \<Rightarrow> Ring \<Rightarrow> 'w mpm_state" where
  "set_prev st r v = ring_set st r ((ring_get st r)\<lparr>prev' := v\<rparr>)"

text \<open>The primitives of the Ring collaborator are not in src. They are modelled as the link
  assignments of a circular doubly-linked list, in program order; following a null link is
  the fault \<open>NullDeref\<close>.\<close>

text \<open>Modelled from the spec: \<open>RingCheck\<close>, the self-consistency check of a ring node: its
  forward and back links are not null and agree (\<open>ring->next->prev == ring\<close> and
  \<open>ring->prev->next == ring\<close>).\<close>

definition RingCheck :: "('w::len) mpm_state \<Rightarrow> RingNode \<Rightarrow> bool" where
  "RingCheck st ring =
     ((case next' (ring_get st ring) of None \<Rightarrow> False
         | Some n \<Rightarrow> prev' (ring_get st n) = Some ring) \<and>
      (case prev' (ring_get st ring) of None \<Rightarrow> False
         | Some p \<Rightarrow> next' (ring_get st p) = Some ring))"

text \<open>Modelled from the spec: \<open>RingInit\<close>, initialize-empty: both links of the node point
  to the node itself.\<close>

definition RingInit :: "('w::len) mpm_state \<Rightarrow> RingNode \<Rightarrow> 'w mpm_state" where
  "RingInit st ring = set_prev (set_next st ring (Some ring)) ring (Some ring)"

text \<open>Modelled from the spec: \<open>RingAppend\<close>, append-to(ring): \<open>new\<close> is linked in before the
  head \<open>ring\<close>, that is, at the end of the ring (\<open>new->prev = ring->prev; new->next = ring;
  ring->prev->next = new; ring->prev = new\<close>).\<close>

definition RingAppend :: "('w::len) mpm_state \<Rightarrow> RingNode \<Rightarrow> RingNode \<Rightarrow> error + 'w mpm_state" where
  "RingAppend st ring new =
     (let st = set_prev st new (prev' (ring_get st ring));
          st = set_next st new (Some ring)
      in case prev' (ring_get st ring) of
           None \<Rightarrow> Inl NullDeref
         | Some q \<Rightarrow> Inr (set_prev (set_next st q (Some new)) ring (Some new)))"

text \<open>Modelled from the spec: \<open>RingRemove\<close>, remove-from(ring): the neighbours of \<open>old\<close> are
  linked to each other and \<open>old\<close> is left a ring of its own (\<open>old->next->prev = old->prev;
  old->prev->next = old->next; old->next = old; old->prev = old\<close>).\<close>

definition RingRemove :: "('w::len) mpm_state \<Rightarrow> RingNode \<Rightarrow> error + 'w mpm_state" where
  "RingRemove st old =
     (case next' (ring_get st old) of
        None \<Rightarrow> Inl NullDeref
      | Some n \<Rightarrow>
          (let st = set_prev st n (prev' (ring_get st old))
           in case prev' (ring_get st old) of
                None \<Rightarrow> Inl NullDeref
              | Some p \<Rightarrow>
                  (let st = set_next st p (next' (ring_get st old));
                       st = set_next st old (Some old);
                       st = set_prev st old (Some old)
                   in Inr st)))"

text \<open>Modelled from the spec: \<open>RingFinish\<close>, the counterpart of \<open>RingInit\<close> that
  \<open>FormatDestroy\<close> calls on the unlinked node. The spec does not describe it; it is modelled
  as clearing both links of the node.\<close>

definition RingFinish :: "('w::len) mpm_state \<Rightarrow> RingNode \<Rightarrow> 'w mpm_state" where
  "RingFinish st ring = set_prev (set_next st ring None) ring None"

subsection \<open>Arena primitives\<close>

text \<open>Modelled from the spec: \<open>ArenaAlloc\<close>, the allocation primitive of the arena (request
  storage, fails on exhaustion). What the arena answers, a failure code or \<open>ResOK\<close> with the
  address of the block, is the parameter \<open>choice\<close>: the policy of the allocator is outside
  format.c. A block handed out is recorded in \<open>allocated\<close>; a failed request changes
  nothing.\<close>

definition ArenaAlloc :: "Res \<times> Addr \<Rightarrow> ('w::len) mpm_state \<Rightarrow> Addr \<Rightarrow> Res \<times> Addr \<times> 'w mpm_state" where
  "ArenaAlloc choice st a =
     (case choice of (res, p) \<Rightarrow>
        if res = ResOK then (ResOK, p, st\<lparr>allocated := insert (a, p) (allocated st)\<rparr>)
        else (res, p, st))"

text \<open>Modelled from the spec: \<open>ArenaFree\<close>, the matching free primitive: the storage goes
  back to the arena, so the record of the block is removed; the cell keeps its contents.\<close>

definition ArenaFree :: "('w::len) mpm_state \<Rightarrow> Addr \<Rightarrow> Addr \<Rightarrow> 'w mpm_state" where
  "ArenaFree st a p = st\<lparr>allocated := allocated st - {(a, p)}\<rparr>"

subsection \<open>format.c\<close>

text \<open>An assignment to a field of the structure at an address.\<close>

definition format_upd ::
  "('w::len) mpm_state \<Rightarrow> Addr \<Rightarrow> ('w FormatStruct \<Rightarrow> 'w FormatStruct) \<Rightarrow> 'w mpm_state" where
  "format_upd st f g = st\<lparr>formats := (formats st)(f := g (formats st f))\<rparr>"

definition arena_upd ::
  "('w::len) mpm_state \<Rightarrow> Addr \<Rightarrow> ('w ArenaStruct \<Rightarrow> 'w ArenaStruct) \<Rightarrow> 'w mpm_state" where
  "arena_upd st a g = st\<lparr>arenas := (arenas st)(a := g (arenas st a))\<rparr>"

text \<open>\<open>FormatCheck\<close>: the checks in program order; the first that fails stops with its
  identity, and \<open>TRUE\<close> is returned when none does. \<open>AlignCheck\<close>, the alignment-validity
  predicate of mpm.h, is a parameter.\<close>

definition FormatCheck :: "(('w::len) word \<Rightarrow> bool) \<Rightarrow> 'w mpm_state \<Rightarrow> Addr \<Rightarrow> error + bool" where
  "FormatCheck AlignCheck st format =
     ASSERT SigCheck_Format (CHECKT_Format st format)
    (ASSERT CheckU_Arena (CHECKT_Arena st (arena (formats st format)))
    (ASSERT Check_serial
       (FormatStruct.serial (formats st format)
          < formatSerial (arenas st (arena (formats st format))))
    (ASSERT Check_variety
       (variety (formats st format) = FormatVarietyA \<or>
        variety (formats st format) = FormatVarietyB)
    (ASSERT Check_arenaRing (RingCheck st (FormatArenaRing format))
    (ASSERT Check_alignment (AlignCheck (alignment (formats st format)))
    (ASSERT Check_scan (FUNCHECK (scan (formats st format)))
    (ASSERT Check_skip (FUNCHECK (skip (formats st format)))
    (ASSERT Check_move (FUNCHECK (move (formats st format)))
    (ASSERT Check_isMoved (FUNCHECK (isMoved (formats st format)))
    (ASSERT Check_copy (FUNCHECK (copy (formats st format)))
    (ASSERT Check_pad (FUNCHECK (pad (formats st format)))
    (ASSERT Check_class (FUNCHECK (class' (formats st format)))
    (Inr True)))))))))))))"

text \<open>\<open>AVERT(Format, format)\<close>: assert that \<open>FormatCheck\<close> returns \<open>TRUE\<close>.\<close>

definition AVERT_Format :: "(('w::len) word \<Rightarrow> bool) \<Rightarrow> 'w mpm_state \<Rightarrow> Addr \<Rightarrow> error + unit" where
  "AVERT_Format AlignCheck st format =
     bindE (FormatCheck AlignCheck st format) (\<lambda>b. ASSERT Avert_Format b (Inr ()))"

text \<open>\<open>FormatDefaultClass\<close>: \<open>mem\<close> gives the pointer-sized word stored at an address.\<close>

definition FormatDefaultClass :: "(Addr \<Rightarrow> Addr) \<Rightarrow> Addr \<Rightarrow> error + Addr" where
  "FormatDefaultClass mem object = ASSERT Aver_object (object \<noteq> NULL) (Inr (mem object))"

definition FormatCreate ::
  "(('w::len) word \<Rightarrow> bool) \<Rightarrow> Res \<times> Addr \<Rightarrow> 'w mpm_state \<Rightarrow> Addr \<Rightarrow> Addr \<Rightarrow> 'w word \<Rightarrow>
   FormatVariety \<Rightarrow> Fun \<Rightarrow> Fun \<Rightarrow> Fun \<Rightarrow> Fun \<Rightarrow> Fun \<Rightarrow> Fun \<Rightarrow> Fun \<Rightarrow> error + Res \<times> 'w mpm_state" where
  "FormatCreate AlignCheck choice st formatReturn arena_arg alignment_arg variety_arg
       scan_arg skip_arg move_arg isMoved_arg copy_arg pad_arg class_arg =
     ASSERT Aver_formatReturn (formatReturn \<noteq> NULL)
      (case ArenaAlloc choice st arena_arg of (res, p, st) \<Rightarrow>
         if res \<noteq> ResOK then Inr (res, st)
         else
           let format = p;
               st = format_upd st format (\<lambda>f. f\<lparr>arena := arena_arg\<rparr>);
               st = RingInit st (FormatArenaRing format);
               st = format_upd st format (\<lambda>f. f\<lparr>alignment := alignment_arg\<rparr>);
               st = format_upd st format (\<lambda>f. f\<lparr>variety := variety_arg\<rparr>);
               st = format_upd st format (\<lambda>f. f\<lparr>scan := scan_arg\<rparr>);
               st = format_upd st format (\<lambda>f. f\<lparr>skip := skip_arg\<rparr>);
               st = format_upd st format (\<lambda>f. f\<lparr>move := move_arg\<rparr>);
               st = format_upd st format (\<lambda>f. f\<lparr>isMoved := isMoved_arg\<rparr>);
               st = format_upd st format (\<lambda>f. f\<lparr>copy := copy_arg\<rparr>);
               st = format_upd st format (\<lambda>f. f\<lparr>pad := pad_arg\<rparr>)
           in bindE
                (if class_arg = FunNULL
                 then ASSERT Aver_varietyA (variety_arg = FormatVarietyA)
                        (Inr (format_upd st format (\<lambda>f. f\<lparr>class' := FormatDefaultClassFun\<rparr>)))
                 else Inr (format_upd st format (\<lambda>f. f\<lparr>class' := class_arg\<rparr>)))
                (\<lambda>st.
                   let st = format_upd st format (\<lambda>f. f\<lparr>FormatStruct.sig := FormatSig\<rparr>);
                       st = format_upd st format
                              (\<lambda>f. f\<lparr>FormatStruct.serial := formatSerial (arenas st arena_arg)\<rparr>);
                       st = arena_upd st arena_arg (\<lambda>a. a\<lparr>formatSerial := formatSerial a + 1\<rparr>)
                   in bindE (AVERT_Format AlignCheck st format)
                        (\<lambda>_. bindE (RingAppend st (ArenaFormatRing arena_arg) (FormatArenaRing format))
                           (\<lambda>st. Inr (ResOK,
                                   st\<lparr>formatRefs := (formatRefs st)(formatReturn := format)\<rparr>)))))"

definition FormatDestroy :: "(('w::len) word \<Rightarrow> bool) \<Rightarrow> 'w mpm_state \<Rightarrow> Addr \<Rightarrow> error + 'w mpm_state" where
  "FormatDestroy AlignCheck st format =
     bindE (AVERT_Format AlignCheck st format)
       (\<lambda>_. bindE (RingRemove st (FormatArenaRing format))
          (\<lambda>st.
             let st = format_upd st format (\<lambda>f. f\<lparr>FormatStruct.sig := SigInvalid\<rparr>);
                 st = RingFinish st (FormatArenaRing format)
             in Inr (ArenaFree st (arena (formats st format)) format)))"

definition FormatArena :: "('w::len) mpm_state \<Rightarrow> Addr \<Rightarrow> Addr" where
  "FormatArena st format = arena (formats st format)"

text \<open>Modelled from the spec: the values passed to the writer of the text sink, by the cast
  that the call applies to each (\<open>WriteFP\<close> an address, \<open>WriteFU\<close> a counter, \<open>WriteFW\<close> a word,
  \<open>WriteFF\<close> a function reference).\<close>

datatype 'a WriteFArg =
    WriteFP Addr
  | WriteFU 'a
  | WriteFW 'a
  | WriteFF Fun

text \<open>The argument list of the call of \<open>WriteF\<close> in \<open>FormatDescribe\<close>: the format strings,
  each with the values that follow it, up to the closing \<open>NULL\<close>.\<close>

definition FormatDescribe_args ::
  "('w::len) mpm_state \<Rightarrow> Addr \<Rightarrow> (string \<times> 'w word WriteFArg list) list" where
  "FormatDescribe_args st format =
     [(''Format $P ($U) {'' @ [CHR 0x0A],
         [WriteFP format, WriteFU (FormatStruct.serial (formats st format))]),
      (''  arena $P ($U)'' @ [CHR 0x0A],
         [WriteFP (arena (formats st format)),
          WriteFU (ArenaStruct.serial (arenas st (arena (formats st format))))]),
      (''  alignment $W'' @ [CHR 0x0A], [WriteFW (alignment (formats st format))]),
      (''  scan $F'' @ [CHR 0x0A], [WriteFF (scan (formats st format))]),
      (''  skip $F'' @ [CHR 0x0A], [WriteFF (skip (formats st format))]),
      (''  move $F'' @ [CHR 0x0A], [WriteFF (move (formats st format))]),
      (''  isMoved $F'' @ [CHR 0x0A], [WriteFF (isMoved (formats st format))]),
      (''  copy $F'' @ [CHR 0x0A], [WriteFF (copy (formats st format))]),
      (''  pad $F'' @ [CHR 0x0A], [WriteFF (pad (formats st format))]),
      (''} Format $P ($U)'' @ [CHR 0x0A],
         [WriteFP format, WriteFU (FormatStruct.serial (formats st format))])]"

text \<open>\<open>FormatDescribe\<close>. The writer \<open>WriteF\<close>, which is not in src, is a parameter: it
  receives the stream and the argument list and answers a result code and the stream after
  the write.\<close>

definition FormatDescribe ::
  "('s \<Rightarrow> (string \<times> ('w::len) word WriteFArg list) list \<Rightarrow> Res \<times> 's) \<Rightarrow>
   'w mpm_state \<Rightarrow> Addr \<Rightarrow> 's \<Rightarrow> Res \<times> 's" where
  "FormatDescribe WriteF st format stream =
     (case WriteF stream (FormatDescribe_args st format) of (res, stream) \<Rightarrow>
        if res \<noteq> ResOK then (res, stream) else (ResOK, stream))"

subsection \<open>Calls through a class method pointer\<close>

text \<open>The call \<open>(*format->class)(object)\<close> made by a user of the descriptor: the address of
  \<open>FormatDefaultClass\<close> runs that function, the address of a client function runs the
  client's code (the parameter \<open>client\<close>), and a null pointer cannot be called.\<close>

definition call_class ::
  "(nat \<Rightarrow> (Addr \<Rightarrow> Addr) \<Rightarrow> Addr \<Rightarrow> error + Addr) \<Rightarrow> Fun \<Rightarrow> (Addr \<Rightarrow> Addr) \<Rightarrow> Addr \<Rightarrow> error + Addr" where
  "call_class client f mem object =
     (case f of
        FunNULL \<Rightarrow> Inl NullDeref
      | FormatDefaultClassFun \<Rightarrow> FormatDefaultClass mem object
      | ClientFun n \<Rightarrow> client n mem object)"

subsection \<open>The validator as a step on the memory\<close>

text \<open>A statement as a step on the memory: from the memory it starts in, its outcome (the
  value it returns, or where it stopped) and the memory it leaves.\<close>

type_synonym ('w, 'a) exec = "'w mpm_state \<Rightarrow> (error + 'a) \<times> 'w mpm_state"

text \<open>Modelled from the spec: a checking macro as a step. Its condition is evaluated in the
  memory the step starts in; the rest \<open>k\<close> runs in that memory when the condition holds, and
  the step stops there with the identity of the check when it does not.\<close>

definition ASSERT_exec ::
  "assertion \<Rightarrow> (('w::len) mpm_state \<Rightarrow> bool) \<Rightarrow> ('w, 'a) exec \<Rightarrow> ('w, 'a) exec" where
  "ASSERT_exec c cond k = (\<lambda>st. if cond st then k st else (Inl (AssertFail c), st))"

text \<open>\<open>return v\<close>.\<close>

definition return_exec :: "'a \<Rightarrow> (('w::len), 'a) exec" where
  "return_exec v = (\<lambda>st. (Inr v, st))"

text \<open>\<open>FormatCheck\<close> with the memory passed from each statement to the next: every check
  reads the fields of its condition in the memory left by the checks before it, and the
  call returns the memory left by the last statement it ran together with its result.\<close>

definition FormatCheck_exec :: "(('w::len) word \<Rightarrow> bool) \<Rightarrow> Addr \<Rightarrow> ('w, bool) exec" where
  "FormatCheck_exec AlignCheck format =
     ASSERT_exec SigCheck_Format (\<lambda>st. CHECKT_Format st format)
    (ASSERT_exec CheckU_Arena (\<lambda>st. CHECKT_Arena st (arena (formats st format)))
    (ASSERT_exec Check_serial
       (\<lambda>st. FormatStruct.serial (formats st format)
          < formatSerial (arenas st (arena (formats st format))))
    (ASSERT_exec Check_variety
       (\<lambda>st. variety (formats st format) = FormatVarietyA \<or>
        variety (formats st format) = FormatVarietyB)
    (ASSERT_exec Check_arenaRing (\<lambda>st. RingCheck st (FormatArenaRing format))
    (ASSERT_exec Check_alignment (\<lambda>st. AlignCheck (alignment (formats st format)))
    (ASSERT_exec Check_scan (\<lambda>st. FUNCHECK (scan (formats st format)))
    (ASSERT_exec Check_skip (\<lambda>st. FUNCHECK (skip (formats st format)))
    (ASSERT_exec Check_move (\<lambda>st. FUNCHECK (move (formats st format)))
    (ASSERT_exec Check_isMoved (\<lambda>st. FUNCHECK (isMoved (formats st format)))
    (ASSERT_exec Check_copy (\<lambda>st. FUNCHECK (copy (formats st format)))
    (ASSERT_exec Check_pad (\<lambda>st. FUNCHECK (pad (formats st format)))
    (ASSERT_exec Check_class (\<lambda>st. FUNCHECK (class' (formats st format)))
    (return_exec True)))))))))))))"

subsection \<open>Descriptors with other methods\<close>

text \<open>The memory in which the seven method fields of the descriptor at an address hold other
  function addresses. It is used to state that an operation does not depend on what the
  methods are.\<close>

definition with_methods ::
  "('w::len) mpm_state \<Rightarrow> Addr \<Rightarrow> Fun \<Rightarrow> Fun \<Rightarrow> Fun \<Rightarrow> Fun \<Rightarrow> Fun \<Rightarrow> Fun \<Rightarrow> Fun \<Rightarrow> 'w mpm_state" where
  "with_methods st format scan_v skip_v move_v isMoved_v copy_v pad_v class_v =
     format_upd st format (\<lambda>f. f\<lparr>scan := scan_v, skip := skip_v, move := move_v,
        isMoved := isMoved_v, copy := copy_v, pad := pad_v, class' := class_v\<rparr>)"

subsection \<open>The state of \<open>FormatCreate\<close> at its \<open>AVERT\<close>\<close>

text \<open>The assignments of \<open>FormatCreate\<close> between the allocation and \<open>AVERT(Format, format)\<close>,
  in program order, applied to the state \<open>st\<close> that the allocation left and the block \<open>p\<close>.
  \<open>FormatCreate\<close> is unfolded to this state in the lemmas.\<close>

definition FormatCreate_assigned ::
  "('w::len) mpm_state \<Rightarrow> Addr \<Rightarrow> Addr \<Rightarrow> 'w word \<Rightarrow>
   FormatVariety \<Rightarrow> Fun \<Rightarrow> Fun \<Rightarrow> Fun \<Rightarrow> Fun \<Rightarrow> Fun \<Rightarrow> Fun \<Rightarrow> Fun \<Rightarrow> 'w mpm_state" where
  "FormatCreate_assigned st p arena_arg alignment_arg variety_arg
       scan_arg skip_arg move_arg isMoved_arg copy_arg pad_arg class_arg =
     (let format = p;
          st = format_upd st format (\<lambda>f. f\<lparr>arena := arena_arg\<rparr>);
          st = RingInit st (FormatArenaRing format);
          st = format_upd st format (\<lambda>f. f\<lparr>alignment := alignment_arg\<rparr>);
          st = format_upd st format (\<lambda>f. f\<lparr>variety := variety_arg\<rparr>);
          st = format_upd st format (\<lambda>f. f\<lparr>scan := scan_arg\<rparr>);
          st = format_upd st format (\<lambda>f. f\<lparr>skip := skip_arg\<rparr>);
          st = format_upd st format (\<lambda>f. f\<lparr>move := move_arg\<rparr>);
          st = format_upd st format (\<lambda>f. f\<lparr>isMoved := isMoved_arg\<rparr>);
          st = format_upd st format (\<lambda>f. f\<lparr>copy := copy_arg\<rparr>);
          st = format_upd st format (\<lambda>f. f\<lparr>pad := pad_arg\<rparr>);
          st = format_upd st format
                 (\<lambda>f. f\<lparr>class' := (if class_arg = FunNULL then FormatDefaultClassFun
                                      else class_arg)\<rparr>);
          st = format_upd st format (\<lambda>f. f\<lparr>FormatStruct.sig := FormatSig\<rparr>);
          st = format_upd st format
                 (\<lambda>f. f\<lparr>FormatStruct.serial := formatSerial (arenas st arena_arg)\<rparr>);
          st = arena_upd st arena_arg (\<lambda>a. a\<lparr>formatSerial := formatSerial a + 1\<rparr>)
      in st)"

subsection \<open>Sequences of operations\<close>

text \<open>A client's interleaved calls of the constructor and the destructor. \<open>Create\<close> carries
  the answer of the allocator and the arguments of \<open>FormatCreate\<close>, \<open>Destroy\<close> the
  descriptor. A run stops at the first assertion failure; a creation that fails for lack
  of storage is a step like any other. The log of a run lists, in order, the arena, the
  address and the serial number of each descriptor created.\<close>

datatype 'a operation =
    Create "Res \<times> Addr" Addr Addr 'a FormatVariety Fun Fun Fun Fun Fun Fun Fun
  | Destroy Addr

fun step ::
  "(('w::len) word \<Rightarrow> bool) \<Rightarrow> 'w mpm_state \<Rightarrow> 'w word operation \<Rightarrow>
   error + (Addr \<times> Addr \<times> 'w word) list \<times> 'w mpm_state" where
  "step AlignCheck st (Create choice formatReturn arena_arg alignment_arg variety_arg
       scan_arg skip_arg move_arg isMoved_arg copy_arg pad_arg class_arg) =
     bindE (FormatCreate AlignCheck choice st formatReturn arena_arg alignment_arg variety_arg
              scan_arg skip_arg move_arg isMoved_arg copy_arg pad_arg class_arg)
       (\<lambda>(res, st').
          Inr (if res = ResOK
               then [(arena_arg, formatRefs st' formatReturn,
                      FormatStruct.serial (formats st' (formatRefs st' formatReturn)))]
               else [], st'))"
| "step AlignCheck st (Destroy format) =
     bindE (FormatDestroy AlignCheck st format) (\<lambda>st'. Inr ([], st'))"

fun run ::
  "(('w::len) word \<Rightarrow> bool) \<Rightarrow> 'w mpm_state \<Rightarrow> 'w word operation list \<Rightarrow>
   error + (Addr \<times> Addr \<times> 'w word) list \<times> 'w mpm_state" where
  "run AlignCheck st [] = Inr ([], st)"
| "run AlignCheck st (x # xs) =
     bindE (step AlignCheck st x)
       (\<lambda>(ev, st1). bindE (run AlignCheck st1 xs) (\<lambda>(log, st2). Inr (ev @ log, st2)))"

text \<open>The addresses at which the creations of a sequence are given storage.\<close>

fun created_at :: "'a operation \<Rightarrow> Addr list" where
  "created_at (Create choice formatReturn arena_arg alignment_arg variety_arg
       scan_arg skip_arg move_arg isMoved_arg copy_arg pad_arg class_arg) =
     (if fst choice = ResOK then [snd choice] else [])"
| "created_at (Destroy format) = []"

text \<open>The serial numbers a log records for one arena, in the order of issue.\<close>

definition issued :: "Addr \<Rightarrow> (Addr \<times> Addr \<times> ('w::len) word) list \<Rightarrow> 'w word list" where
  "issued a log = map (\<lambda>e. snd (snd e)) (filter (\<lambda>e. fst e = a) log)"

subsection \<open>The ring of an arena as a list\<close>

text \<open>\<open>ring_path R p xs h\<close>: in the ring memory \<open>R\<close>, the forward links lead from \<open>p\<close> through
  the nodes \<open>xs\<close> to \<open>h\<close> and the back links lead the same way back. \<open>is_ring st h xs\<close>: the
  ring with head \<open>h\<close> is a cycle whose member nodes, from the head on, are exactly \<open>xs\<close>;
  this is the enumeration of the ring.\<close>

fun ring_path :: "(RingNode \<Rightarrow> RingStruct) \<Rightarrow> RingNode \<Rightarrow> RingNode list \<Rightarrow> RingNode \<Rightarrow> bool" where
  "ring_path R p [] h = (next' (R p) = Some h \<and> prev' (R h) = Some p)"
| "ring_path R p (x # xs) h =
     (next' (R p) = Some x \<and> prev' (R x) = Some p \<and> ring_path R x xs h)"

definition is_ring :: "('w::len) mpm_state \<Rightarrow> RingNode \<Rightarrow> RingNode list \<Rightarrow> bool" where
  "is_ring st h xs = (distinct (h # xs) \<and> ring_path (ring_get st) h xs h)"

subsection \<open>The validator as the spec lists it\<close>

text \<open>The seven checks of the spec in its order, the seventh once for each callback, each
  with the identity of the check; \<open>first_failure\<close> is the first check of a list that does
  not hold. This is the reading of the spec that \<open>FormatCheck\<close> is compared with.\<close>

definition spec_checks ::
  "(('w::len) word \<Rightarrow> bool) \<Rightarrow> 'w mpm_state \<Rightarrow> Addr \<Rightarrow> (assertion \<times> bool) list" where
  "spec_checks AlignCheck st format =
     [(SigCheck_Format, CHECKT_Format st format),
      (CheckU_Arena, CHECKT_Arena st (arena (formats st format))),
      (Check_serial,
         FormatStruct.serial (formats st format)
           < formatSerial (arenas st (arena (formats st format)))),
      (Check_variety, variety (formats st format) \<in> {FormatVarietyA, FormatVarietyB}),
      (Check_arenaRing, RingCheck st (FormatArenaRing format)),
      (Check_alignment, AlignCheck (alignment (formats st format))),
      (Check_scan, FUNCHECK (scan (formats st format))),
      (Check_skip, FUNCHECK (skip (formats st format))),
      (Check_move, FUNCHECK (move (formats st format))),
      (Check_isMoved, FUNCHECK (isMoved (formats st format))),
      (Check_copy, FUNCHECK (copy (formats st format))),
      (Check_pad, FUNCHECK (pad (formats st format))),
      (Check_class, FUNCHECK (class' (formats st format)))]"

fun first_failure :: "(assertion \<times> bool) list \<Rightarrow> assertion option" where
  "first_failure [] = None"
| "first_failure ((c, b) # cs) = (if b then first_failure cs else Some c)"

subsection \<open>Example states\<close>

definition align_pow2 :: "32 word \<Rightarrow> bool" where
  "align_pow2 a = (a \<in> {1, 2, 4, 8, 16})"

definition format0 :: "32 FormatStruct" where
  "format0 = \<lparr>FormatStruct.sig = SigInvalid, serial = 0, arena = NULL,
     arenaRing = \<lparr>next' = None, prev' = None\<rparr>, alignment = 0,
     variety = FormatVarietyOther 0, scan = FunNULL, skip = FunNULL, move = FunNULL,
     isMoved = FunNULL, copy = FunNULL, pad = FunNULL, class' = FunNULL\<rparr>"

definition arena0 :: "32 ArenaStruct" where
  "arena0 = \<lparr>ArenaStruct.sig = SigInvalid, serial = 0, formatSerial = 0,
     formatRing = \<lparr>next' = None, prev' = None\<rparr>\<rparr>"

text \<open>An arena at address 1 that has issued three serial numbers and has no format.\<close>

definition arena1 :: "32 ArenaStruct" where
  "arena1 = \<lparr>ArenaStruct.sig = ArenaSig, serial = 7, formatSerial = 3,
     formatRing = \<lparr>next' = Some (ArenaFormatRing 1), prev' = Some (ArenaFormatRing 1)\<rparr>\<rparr>"

definition state1 :: "32 mpm_state" where
  "state1 = \<lparr>formats = (\<lambda>_. format0), arenas = (\<lambda>_. arena0)(1 := arena1),
     formatRefs = (\<lambda>_. NULL), allocated = {}\<rparr>"

text \<open>The same arena after a format was created at address 10 (its handle written to
  cell 5), with the default class method.\<close>

definition format10 :: "32 FormatStruct" where
  "format10 = \<lparr>FormatStruct.sig = FormatSig, serial = 3, arena = 1,
     arenaRing = \<lparr>next' = Some (ArenaFormatRing 1), prev' = Some (ArenaFormatRing 1)\<rparr>,
     alignment = 8, variety = FormatVarietyA, scan = ClientFun 1, skip = ClientFun 2,
     move = ClientFun 3, isMoved = ClientFun 4, copy = ClientFun 5, pad = ClientFun 6,
     class' = FormatDefaultClassFun\<rparr>"

definition state2 :: "32 mpm_state" where
  "state2 = \<lparr>formats = (\<lambda>_. format0)(10 := format10),
     arenas = (\<lambda>_. arena0)(1 := arena1\<lparr>formatSerial := 4,
        formatRing := \<lparr>next' = Some (FormatArenaRing 10), prev' = Some (FormatArenaRing 10)\<rparr>\<rparr>),
     formatRefs = (\<lambda>_. NULL)(5 := 10), allocated = {(1, 10)}\<rparr>"

text \<open>The state after that format was destroyed.\<close>

definition state3 :: "32 mpm_state" where
  "state3 = \<lparr>formats = (\<lambda>_. format0)(10 := format10\<lparr>FormatStruct.sig := SigInvalid,
        arenaRing := \<lparr>next' = None, prev' = None\<rparr>\<rparr>),
     arenas = (\<lambda>_. arena0)(1 := arena1\<lparr>formatSerial := 4\<rparr>),
     formatRefs = (\<lambda>_. NULL)(5 := 10), allocated = {}\<rparr>"

text \<open>The state after a format was created again at address 10.\<close>

definition state4 :: "32 mpm_state" where
  "state4 = \<lparr>formats = (\<lambda>_. format0)(10 := format10\<lparr>FormatStruct.serial := 4\<rparr>),
     arenas = (\<lambda>_. arena0)(1 := arena1\<lparr>formatSerial := 5,
        formatRing := \<lparr>next' = Some (FormatArenaRing 10), prev' = Some (FormatArenaRing 10)\<rparr>\<rparr>),
     formatRefs = (\<lambda>_. NULL)(5 := 10), allocated = {(1, 10)}\<rparr>"

text \<open>The state after the first format was destroyed and a format of variety B was then
  created at address 11 (its handle written to cell 6).\<close>

definition format11 :: "32 FormatStruct" where
  "format11 = \<lparr>FormatStruct.sig = FormatSig, serial = 4, arena = 1,
     arenaRing = \<lparr>next' = Some (ArenaFormatRing 1), prev' = Some (ArenaFormatRing 1)\<rparr>,
     alignment = 4, variety = FormatVarietyB, scan = ClientFun 1, skip = ClientFun 2,
     move = ClientFun 3, isMoved = ClientFun 4, copy = ClientFun 5, pad = ClientFun 6,
     class' = ClientFun 7\<rparr>"

definition state5 :: "32 mpm_state" where
  "state5 = \<lparr>formats = (\<lambda>_. format0)(10 := format10\<lparr>FormatStruct.sig := SigInvalid,
        arenaRing := \<lparr>next' = None, prev' = None\<rparr>\<rparr>, 11 := format11),
     arenas = (\<lambda>_. arena0)(1 := arena1\<lparr>formatSerial := 5,
        formatRing := \<lparr>next' = Some (FormatArenaRing 11), prev' = Some (FormatArenaRing 11)\<rparr>\<rparr>),
     formatRefs = (\<lambda>_. NULL)(5 := 10, 6 := 11), allocated = {(1, 11)}\<rparr>"

text \<open>A sequence that creates a format, destroys it, fails to create one for lack of
  storage, and creates one again in the block of the first.\<close>

definition example_ops :: "32 word operation list" where
  "example_ops =
     [Create (ResOK, 10) 5 1 8 FormatVarietyA (ClientFun 1) (ClientFun 2) (ClientFun 3)
        (ClientFun 4) (ClientFun 5) (ClientFun 6) FunNULL,
      Destroy 10,
      Create (ResFail 3, 0) 5 1 8 FormatVarietyA (ClientFun 1) (ClientFun 2) (ClientFun 3)
        (ClientFun 4) (ClientFun 5) (ClientFun 6) FunNULL,
      Create (ResOK, 10) 5 1 8 FormatVarietyA (ClientFun 1) (ClientFun 2) (ClientFun 3)
        (ClientFun 4) (ClientFun 5) (ClientFun 6) FunNULL]"

section \<open>Lemmas\<close>

subsection \<open>Assertions and sequencing\<close>

lemma bindE_simps: "bindE (Inr x) k = k x" "bindE (Inl e) k = Inl e"
  by (simp_all add: bindE_def)

lemma bindE_Inr_iff: "(bindE m k = Inr y) = (\<exists>x. m = Inr x \<and> k x = Inr y)"
  by (cases m) (simp_all add: bindE_def)

lemma ASSERT_Inr_iff: "(ASSERT c b k = Inr y) = (b \<and> k = Inr y)"
  by (simp add: ASSERT_def)

lemma word_succ_unat: "(x::'a::len word) < x + 1 \<Longrightarrow> unat (x + 1) = unat x + 1"
  using unat_plus_simple [of x 1] by (simp add: less_imp_le)

subsection \<open>Ring memory\<close>

lemma ring_get_ring_set [simp]:
  "ring_get (ring_set st r v) r' = (if r' = r then v else ring_get st r')"
  by (simp add: ring_get_def ring_set_def split: RingNode.splits)

lemma frame_ring_set [simp]:
  "FormatStruct.sig (formats (ring_set st r v) f) = FormatStruct.sig (formats st f)"
  "FormatStruct.serial (formats (ring_set st r v) f) = FormatStruct.serial (formats st f)"
  "arena (formats (ring_set st r v) f) = arena (formats st f)"
  "alignment (formats (ring_set st r v) f) = alignment (formats st f)"
  "variety (formats (ring_set st r v) f) = variety (formats st f)"
  "scan (formats (ring_set st r v) f) = scan (formats st f)"
  "skip (formats (ring_set st r v) f) = skip (formats st f)"
  "move (formats (ring_set st r v) f) = move (formats st f)"
  "isMoved (formats (ring_set st r v) f) = isMoved (formats st f)"
  "copy (formats (ring_set st r v) f) = copy (formats st f)"
  "pad (formats (ring_set st r v) f) = pad (formats st f)"
  "class' (formats (ring_set st r v) f) = class' (formats st f)"
  "ArenaStruct.sig (arenas (ring_set st r v) a) = ArenaStruct.sig (arenas st a)"
  "ArenaStruct.serial (arenas (ring_set st r v) a) = ArenaStruct.serial (arenas st a)"
  "formatSerial (arenas (ring_set st r v) a) = formatSerial (arenas st a)"
  "formatRefs (ring_set st r v) = formatRefs st"
  "allocated (ring_set st r v) = allocated st"
  by (simp_all add: ring_set_def split: RingNode.splits)

lemma ring_get_set_next [simp]:
  "next' (ring_get (set_next st r v) r') = (if r' = r then v else next' (ring_get st r'))"
  "prev' (ring_get (set_next st r v) r') = prev' (ring_get st r')"
  by (simp_all add: set_next_def)

lemma ring_get_set_prev [simp]:
  "prev' (ring_get (set_prev st r v) r') = (if r' = r then v else prev' (ring_get st r'))"
  "next' (ring_get (set_prev st r v) r') = next' (ring_get st r')"
  by (simp_all add: set_prev_def)

lemma frame_set_next [simp]:
  "FormatStruct.sig (formats (set_next st r v) f) = FormatStruct.sig (formats st f)"
  "FormatStruct.serial (formats (set_next st r v) f) = FormatStruct.serial (formats st f)"
  "arena (formats (set_next st r v) f) = arena (formats st f)"
  "alignment (formats (set_next st r v) f) = alignment (formats st f)"
  "variety (formats (set_next st r v) f) = variety (formats st f)"
  "scan (formats (set_next st r v) f) = scan (formats st f)"
  "skip (formats (set_next st r v) f) = skip (formats st f)"
  "move (formats (set_next st r v) f) = move (formats st f)"
  "isMoved (formats (set_next st r v) f) = isMoved (formats st f)"
  "copy (formats (set_next st r v) f) = copy (formats st f)"
  "pad (formats (set_next st r v) f) = pad (formats st f)"
  "class' (formats (set_next st r v) f) = class' (formats st f)"
  "ArenaStruct.sig (arenas (set_next st r v) a) = ArenaStruct.sig (arenas st a)"
  "ArenaStruct.serial (arenas (set_next st r v) a) = ArenaStruct.serial (arenas st a)"
  "formatSerial (arenas (set_next st r v) a) = formatSerial (arenas st a)"
  "formatRefs (set_next st r v) = formatRefs st"
  "allocated (set_next st r v) = allocated st"
  by (simp_all add: set_next_def)

lemma frame_set_prev [simp]:
  "FormatStruct.sig (formats (set_prev st r v) f) = FormatStruct.sig (formats st f)"
  "FormatStruct.serial (formats (set_prev st r v) f) = FormatStruct.serial (formats st f)"
  "arena (formats (set_prev st r v) f) = arena (formats st f)"
  "alignment (formats (set_prev st r v) f) = alignment (formats st f)"
  "variety (formats (set_prev st r v) f) = variety (formats st f)"
  "scan (formats (set_prev st r v) f) = scan (formats st f)"
  "skip (formats (set_prev st r v) f) = skip (formats st f)"
  "move (formats (set_prev st r v) f) = move (formats st f)"
  "isMoved (formats (set_prev st r v) f) = isMoved (formats st f)"
  "copy (formats (set_prev st r v) f) = copy (formats st f)"
  "pad (formats (set_prev st r v) f) = pad (formats st f)"
  "class' (formats (set_prev st r v) f) = class' (formats st f)"
  "ArenaStruct.sig (arenas (set_prev st r v) a) = ArenaStruct.sig (arenas st a)"
  "ArenaStruct.serial (arenas (set_prev st r v) a) = ArenaStruct.serial (arenas st a)"
  "formatSerial (arenas (set_prev st r v) a) = formatSerial (arenas st a)"
  "formatRefs (set_prev st r v) = formatRefs st"
  "allocated (set_prev st r v) = allocated st"
  by (simp_all add: set_prev_def)

lemma ring_get_other_upd [simp]:
  "ring_get (st\<lparr>formatRefs := x\<rparr>) r = ring_get st r"
  "ring_get (st\<lparr>allocated := y\<rparr>) r = ring_get st r"
  by (simp_all add: ring_get_def split: RingNode.splits)

lemma ring_get_format_upd:
  "arenaRing (g (formats st f)) = arenaRing (formats st f) \<Longrightarrow>
   ring_get (format_upd st f g) r = ring_get st r"
  by (simp add: ring_get_def format_upd_def split: RingNode.splits)

lemma RingCheck_iff:
  "RingCheck st r =
     (\<exists>n p. next' (ring_get st r) = Some n \<and> prev' (ring_get st n) = Some r \<and>
            prev' (ring_get st r) = Some p \<and> next' (ring_get st p) = Some r)"
  by (auto simp: RingCheck_def split: option.splits)

lemma RingCheck_other_upd [simp]:
  "RingCheck (st\<lparr>formatRefs := x\<rparr>) r = RingCheck st r"
  "RingCheck (st\<lparr>allocated := y\<rparr>) r = RingCheck st r"
  by (simp_all add: RingCheck_iff)

lemma RingAppend_frame:
  assumes "RingAppend st ring new = Inr st'"
  shows
  "FormatStruct.sig (formats st' f) = FormatStruct.sig (formats st f)"
  "FormatStruct.serial (formats st' f) = FormatStruct.serial (formats st f)"
  "arena (formats st' f) = arena (formats st f)"
  "alignment (formats st' f) = alignment (formats st f)"
  "variety (formats st' f) = variety (formats st f)"
  "scan (formats st' f) = scan (formats st f)"
  "skip (formats st' f) = skip (formats st f)"
  "move (formats st' f) = move (formats st f)"
  "isMoved (formats st' f) = isMoved (formats st f)"
  "copy (formats st' f) = copy (formats st f)"
  "pad (formats st' f) = pad (formats st f)"
  "class' (formats st' f) = class' (formats st f)"
  "ArenaStruct.sig (arenas st' a) = ArenaStruct.sig (arenas st a)"
  "ArenaStruct.serial (arenas st' a) = ArenaStruct.serial (arenas st a)"
  "formatSerial (arenas st' a) = formatSerial (arenas st a)"
  "formatRefs st' = formatRefs st"
  "allocated st' = allocated st"
  using assms by (auto simp: RingAppend_def Let_def split: option.splits)

lemma RingAppend_new_ok:
  assumes "RingAppend st ring new = Inr st'" "ring \<noteq> new"
  shows "RingCheck st' new"
  using assms
  by (auto simp: RingAppend_def RingCheck_def Let_def split: option.splits if_splits)

subsection \<open>The validator\<close>

lemma AVERT_Format_iff: "(AVERT_Format A st f = Inr u) = (FormatCheck A st f = Inr True)"
  by (auto simp: AVERT_Format_def bindE_Inr_iff ASSERT_Inr_iff)

lemma FormatCheck_True_iff:
  "(FormatCheck A st f = Inr True) =
     (CHECKT_Format st f \<and> CHECKT_Arena st (arena (formats st f)) \<and>
      FormatStruct.serial (formats st f) < formatSerial (arenas st (arena (formats st f))) \<and>
      (variety (formats st f) = FormatVarietyA \<or> variety (formats st f) = FormatVarietyB) \<and>
      RingCheck st (FormatArenaRing f) \<and> A (alignment (formats st f)) \<and>
      FUNCHECK (scan (formats st f)) \<and> FUNCHECK (skip (formats st f)) \<and>
      FUNCHECK (move (formats st f)) \<and> FUNCHECK (isMoved (formats st f)) \<and>
      FUNCHECK (copy (formats st f)) \<and> FUNCHECK (pad (formats st f)) \<and>
      FUNCHECK (class' (formats st f)))"
  by (simp add: FormatCheck_def ASSERT_def)

lemma FormatCheck_not_False: "FormatCheck A st f \<noteq> Inr False"
  by (simp add: FormatCheck_def ASSERT_def)

lemma FormatCheck_exec_eq:
  "FormatCheck_exec A format st = (FormatCheck A st format, st)"
  by (simp add: FormatCheck_exec_def FormatCheck_def ASSERT_exec_def ASSERT_def return_exec_def)

lemma FormatCheck_frame:
  assumes "formats st' = formats st" "arenas st' = arenas st"
  shows "FormatCheck AlignCheck st' format = FormatCheck AlignCheck st format"
proof -
  have "ring_get st' = ring_get st"
    using assms by (auto simp: ring_get_def fun_eq_iff split: RingNode.splits)
  then have "RingCheck st' (FormatArenaRing format) = RingCheck st (FormatArenaRing format)"
    by (simp add: RingCheck_iff)
  then show ?thesis
    using assms by (simp add: FormatCheck_def CHECKT_Format_def CHECKT_Arena_def)
qed

subsection \<open>The constructor\<close>

lemma FormatCreate_unfold:
  "FormatCreate A (res, p) st formatReturn arena_arg alignment_arg variety_arg
       scan_arg skip_arg move_arg isMoved_arg copy_arg pad_arg class_arg =
   (if formatReturn = NULL then Inl (AssertFail Aver_formatReturn)
    else if res \<noteq> ResOK then Inr (res, st)
    else if class_arg = FunNULL \<and> variety_arg \<noteq> FormatVarietyA
      then Inl (AssertFail Aver_varietyA)
    else bindE (AVERT_Format A
                  (FormatCreate_assigned (st\<lparr>allocated := insert (arena_arg, p) (allocated st)\<rparr>)
                     p arena_arg alignment_arg variety_arg scan_arg skip_arg move_arg
                     isMoved_arg copy_arg pad_arg class_arg) p)
           (\<lambda>_. bindE (RingAppend
                         (FormatCreate_assigned
                            (st\<lparr>allocated := insert (arena_arg, p) (allocated st)\<rparr>)
                            p arena_arg alignment_arg variety_arg scan_arg skip_arg move_arg
                            isMoved_arg copy_arg pad_arg class_arg)
                         (ArenaFormatRing arena_arg) (FormatArenaRing p))
                  (\<lambda>st. Inr (ResOK, st\<lparr>formatRefs := (formatRefs st)(formatReturn := p)\<rparr>))))"
  unfolding FormatCreate_def FormatCreate_assigned_def Let_def ASSERT_def ArenaAlloc_def
  by (simp add: bindE_simps)

lemma FormatCreate_assigned_fields:
  "formats (FormatCreate_assigned st p arena_arg alignment_arg variety_arg scan_arg skip_arg
      move_arg isMoved_arg copy_arg pad_arg class_arg) p =
     \<lparr>FormatStruct.sig = FormatSig, serial = formatSerial (arenas st arena_arg),
       arena = arena_arg,
       arenaRing = \<lparr>next' = Some (FormatArenaRing p), prev' = Some (FormatArenaRing p)\<rparr>,
       alignment = alignment_arg, variety = variety_arg, scan = scan_arg, skip = skip_arg,
       move = move_arg, isMoved = isMoved_arg, copy = copy_arg, pad = pad_arg,
       class' = (if class_arg = FunNULL then FormatDefaultClassFun else class_arg)\<rparr>"
  "x \<noteq> p \<Longrightarrow>
   formats (FormatCreate_assigned st p arena_arg alignment_arg variety_arg scan_arg skip_arg
      move_arg isMoved_arg copy_arg pad_arg class_arg) x = formats st x"
  "arenas (FormatCreate_assigned st p arena_arg alignment_arg variety_arg scan_arg skip_arg
      move_arg isMoved_arg copy_arg pad_arg class_arg) =
     (arenas st)(arena_arg :=
        (arenas st arena_arg)\<lparr>formatSerial := formatSerial (arenas st arena_arg) + 1\<rparr>)"
  "formatRefs (FormatCreate_assigned st p arena_arg alignment_arg variety_arg scan_arg skip_arg
      move_arg isMoved_arg copy_arg pad_arg class_arg) = formatRefs st"
  "allocated (FormatCreate_assigned st p arena_arg alignment_arg variety_arg scan_arg skip_arg
      move_arg isMoved_arg copy_arg pad_arg class_arg) = allocated st"
  by (simp_all add: FormatCreate_assigned_def Let_def format_upd_def arena_upd_def RingInit_def
        set_next_def set_prev_def ring_set_def ring_get_def)

text \<open>What a successful call went through.\<close>

lemma FormatCreate_ResOK_D:
  assumes "FormatCreate A choice st formatReturn arena_arg alignment_arg variety_arg
             scan_arg skip_arg move_arg isMoved_arg copy_arg pad_arg class_arg = Inr (ResOK, st')"
  obtains p S st4 where
    "choice = (ResOK, p)"
    "S = FormatCreate_assigned (st\<lparr>allocated := insert (arena_arg, p) (allocated st)\<rparr>)
           p arena_arg alignment_arg variety_arg scan_arg skip_arg move_arg
           isMoved_arg copy_arg pad_arg class_arg"
    "FormatCheck A S p = Inr True"
    "RingAppend S (ArenaFormatRing arena_arg) (FormatArenaRing p) = Inr st4"
    "st' = st4\<lparr>formatRefs := (formatRefs st4)(formatReturn := p)\<rparr>"
proof -
  obtain res p where choice: "choice = (res, p)" by (cases choice)
  from assms show ?thesis
    unfolding choice FormatCreate_unfold
    by (auto simp: bindE_Inr_iff AVERT_Format_iff intro: that [unfolded choice] split: if_splits)
qed

lemma RingAppend_Inr:
  "prev' (ring_get st ring) \<noteq> None \<Longrightarrow> ring \<noteq> new \<Longrightarrow> \<exists>st'. RingAppend st ring new = Inr st'"
  by (auto simp: RingAppend_def Let_def split: option.splits)

lemma ring_get_assigned:
  "ring_get (FormatCreate_assigned st p arena_arg alignment_arg variety_arg scan_arg skip_arg
      move_arg isMoved_arg copy_arg pad_arg class_arg) (FormatArenaRing x) =
     arenaRing (formats (FormatCreate_assigned st p arena_arg alignment_arg variety_arg scan_arg skip_arg
      move_arg isMoved_arg copy_arg pad_arg class_arg) x)"
  "ring_get (FormatCreate_assigned st p arena_arg alignment_arg variety_arg scan_arg skip_arg
      move_arg isMoved_arg copy_arg pad_arg class_arg) (ArenaFormatRing a) =
     formatRing (arenas st a)"
  by (simp_all add: ring_get_def FormatCreate_assigned_fields)

subsection \<open>Paths in the ring memory\<close>

lemma ring_path_append:
  "ring_path R p (ys @ x # zs) h = (ring_path R p ys x \<and> ring_path R x zs h)"
  by (induction ys arbitrary: p) auto

lemma ring_path_frame:
  assumes "\<And>y. y \<in> set (p # xs) \<Longrightarrow> next' (R' y) = next' (R y)"
      and "\<And>y. y \<in> set (xs @ [h]) \<Longrightarrow> prev' (R' y) = prev' (R y)"
  shows "ring_path R' p xs h = ring_path R p xs h"
  using assms by (induction xs arbitrary: p) auto

lemma ring_path_next_in:
  "ring_path R p xs h \<Longrightarrow> y \<in> set (p # xs) \<Longrightarrow> \<exists>z \<in> set (xs @ [h]). next' (R y) = Some z"
  by (induction xs arbitrary: p) auto

lemma ring_path_prev_in:
  "ring_path R p xs h \<Longrightarrow> y \<in> set (xs @ [h]) \<Longrightarrow> \<exists>z \<in> set (p # xs). prev' (R y) = Some z"
  by (induction xs arbitrary: p) auto

lemma ring_path_first:
  "ring_path R p xs h \<Longrightarrow>
     next' (R p) = Some (hd (xs @ [h])) \<and> prev' (R (hd (xs @ [h]))) = Some p"
  by (cases xs) simp_all

lemma ring_path_last:
  "ring_path R p xs h \<Longrightarrow>
     next' (R (last (p # xs))) = Some h \<and> prev' (R h) = Some (last (p # xs))"
  by (induction xs arbitrary: p) simp_all

lemma ring_path_restart:
  assumes "ring_path R old zs b" "old \<notin> set zs" "a \<notin> set zs" "old \<noteq> b" "distinct zs" "b \<notin> set zs"
    and "next' (R' a) = Some (hd (zs @ [b]))" "prev' (R' (hd (zs @ [b]))) = Some a"
    and nx: "\<And>y. y \<noteq> a \<Longrightarrow> y \<noteq> old \<Longrightarrow> next' (R' y) = next' (R y)"
    and pv: "\<And>y. y \<noteq> hd (zs @ [b]) \<Longrightarrow> y \<noteq> old \<Longrightarrow> prev' (R' y) = prev' (R y)"
  shows "ring_path R' a zs b"
proof (cases zs)
  case Nil
  with assms show ?thesis by simp
next
  case (Cons z zs')
  have "ring_path R' z zs' b = ring_path R z zs' b"
  proof (rule ring_path_frame)
    fix y assume "y \<in> set (z # zs')"
    then show "next' (R' y) = next' (R y)" using assms(2,3) Cons by (intro nx) auto
  next
    fix y assume "y \<in> set (zs' @ [b])"
    then show "prev' (R' y) = prev' (R y)" using assms(2,4,5,6) Cons by (intro pv) auto
  qed
  with assms(1,7,8) Cons show ?thesis by simp
qed

lemma ring_path_remove:
  assumes "ring_path R a (ys @ old # zs) b" "distinct (a # ys @ old # zs)"
      "b \<notin> set (ys @ old # zs)"
    and "next' (R' (last (a # ys))) = Some (hd (zs @ [b]))"
        "prev' (R' (hd (zs @ [b]))) = Some (last (a # ys))"
    and nx: "\<And>y. y \<noteq> last (a # ys) \<Longrightarrow> y \<noteq> old \<Longrightarrow> next' (R' y) = next' (R y)"
    and pv: "\<And>y. y \<noteq> hd (zs @ [b]) \<Longrightarrow> y \<noteq> old \<Longrightarrow> prev' (R' y) = prev' (R y)"
  shows "ring_path R' a (ys @ zs) b"
  using assms(1-5) nx
proof (induction ys arbitrary: a)
  case Nil
  show ?case
  proof (simp, rule ring_path_restart [where old = old and R = R])
    show "ring_path R old zs b" using Nil.prems(1) by simp
    show "next' (R' a) = Some (hd (zs @ [b]))" using Nil.prems(4) by simp
    show "prev' (R' (hd (zs @ [b]))) = Some a" using Nil.prems(5) by simp
    show "\<And>y. y \<noteq> a \<Longrightarrow> y \<noteq> old \<Longrightarrow> next' (R' y) = next' (R y)"
      using Nil.prems(6) by simp
    show "\<And>y. y \<noteq> hd (zs @ [b]) \<Longrightarrow> y \<noteq> old \<Longrightarrow> prev' (R' y) = prev' (R y)"
      by (rule pv)
  qed (use Nil.prems(2,3) in auto)
next
  case (Cons y ys)
  have hd_in: "hd (zs @ [b]) \<in> set (zs @ [b])" by (cases zs) auto
  have y_nx: "y \<noteq> hd (zs @ [b])" using hd_in Cons.prems(2,3) by auto
  have a_last: "a \<noteq> last (y # ys)"
    using Cons.prems(2) last_in_set [of "y # ys"] by auto
  have 1: "next' (R' a) = next' (R a)"
    using Cons.prems(6) [of a] a_last Cons.prems(2) by simp
  have 2: "prev' (R' y) = prev' (R y)"
    using pv [of y] y_nx Cons.prems(2) by simp
  have 3: "ring_path R' y (ys @ zs) b"
  proof (rule Cons.IH)
    show "ring_path R y (ys @ old # zs) b" using Cons.prems(1) by simp
    show "distinct (y # ys @ old # zs)" using Cons.prems(2) by simp
    show "b \<notin> set (ys @ old # zs)" using Cons.prems(3) by simp
    show "next' (R' (last (y # ys))) = Some (hd (zs @ [b]))" using Cons.prems(4) by simp
    show "prev' (R' (hd (zs @ [b]))) = Some (last (y # ys))" using Cons.prems(5) by simp
    show "\<And>z. z \<noteq> last (y # ys) \<Longrightarrow> z \<noteq> old \<Longrightarrow> next' (R' z) = next' (R z)"
      using Cons.prems(6) by simp
  qed
  from Cons.prems(1) 1 2 3 show ?case by simp
qed

subsection \<open>The destructor\<close>

lemma RingRemove_frame:
  assumes "RingRemove st old = Inr st'"
  shows
  "FormatStruct.sig (formats st' f) = FormatStruct.sig (formats st f)"
  "FormatStruct.serial (formats st' f) = FormatStruct.serial (formats st f)"
  "arena (formats st' f) = arena (formats st f)"
  "alignment (formats st' f) = alignment (formats st f)"
  "variety (formats st' f) = variety (formats st f)"
  "scan (formats st' f) = scan (formats st f)"
  "skip (formats st' f) = skip (formats st f)"
  "move (formats st' f) = move (formats st f)"
  "isMoved (formats st' f) = isMoved (formats st f)"
  "copy (formats st' f) = copy (formats st f)"
  "pad (formats st' f) = pad (formats st f)"
  "class' (formats st' f) = class' (formats st f)"
  "ArenaStruct.sig (arenas st' a) = ArenaStruct.sig (arenas st a)"
  "ArenaStruct.serial (arenas st' a) = ArenaStruct.serial (arenas st a)"
  "formatSerial (arenas st' a) = formatSerial (arenas st a)"
  "formatRefs st' = formatRefs st"
  "allocated st' = allocated st"
  using assms by (auto simp: RingRemove_def Let_def split: option.splits)

lemma RingRemove_links:
  assumes "RingCheck st old"
  shows "\<exists>st'. RingRemove st old = Inr st' \<and>
    (\<forall>y. next' (ring_get st' y) =
       (if y = old then Some old
        else if prev' (ring_get st old) = Some y then next' (ring_get st old)
        else next' (ring_get st y))) \<and>
    (\<forall>y. prev' (ring_get st' y) =
       (if y = old then Some old
        else if next' (ring_get st old) = Some y then prev' (ring_get st old)
        else prev' (ring_get st y)))"
proof -
  from assms obtain n p where
    np: "next' (ring_get st old) = Some n" "prev' (ring_get st old) = Some p"
    by (auto simp: RingCheck_iff)
  let ?st' = "set_prev (set_next (set_next (set_prev st n (Some p)) p (Some n)) old (Some old))
               old (Some old)"
  have rm: "RingRemove st old = Inr ?st'"
    using np by (simp add: RingRemove_def Let_def cong: if_cong)
  show ?thesis
    unfolding rm using np by auto
qed

lemma frame_RingFinish [simp]:
  "FormatStruct.sig (formats (RingFinish st r) f) = FormatStruct.sig (formats st f)"
  "FormatStruct.serial (formats (RingFinish st r) f) = FormatStruct.serial (formats st f)"
  "arena (formats (RingFinish st r) f) = arena (formats st f)"
  "alignment (formats (RingFinish st r) f) = alignment (formats st f)"
  "variety (formats (RingFinish st r) f) = variety (formats st f)"
  "scan (formats (RingFinish st r) f) = scan (formats st f)"
  "skip (formats (RingFinish st r) f) = skip (formats st f)"
  "move (formats (RingFinish st r) f) = move (formats st f)"
  "isMoved (formats (RingFinish st r) f) = isMoved (formats st f)"
  "copy (formats (RingFinish st r) f) = copy (formats st f)"
  "pad (formats (RingFinish st r) f) = pad (formats st f)"
  "class' (formats (RingFinish st r) f) = class' (formats st f)"
  "ArenaStruct.sig (arenas (RingFinish st r) a) = ArenaStruct.sig (arenas st a)"
  "ArenaStruct.serial (arenas (RingFinish st r) a) = ArenaStruct.serial (arenas st a)"
  "formatSerial (arenas (RingFinish st r) a) = formatSerial (arenas st a)"
  "formatRefs (RingFinish st r) = formatRefs st"
  "allocated (RingFinish st r) = allocated st"
  by (simp_all add: RingFinish_def)

lemma ring_get_RingFinish [simp]:
  "next' (ring_get (RingFinish st r) y) = (if y = r then None else next' (ring_get st y))"
  "prev' (ring_get (RingFinish st r) y) = (if y = r then None else prev' (ring_get st y))"
  by (simp_all add: RingFinish_def)

lemma ring_get_ArenaFree [simp]: "ring_get (ArenaFree st a p) y = ring_get st y"
  by (simp add: ArenaFree_def)

lemma ring_get_sig_upd [simp]:
  "ring_get (format_upd st f (\<lambda>x. x\<lparr>FormatStruct.sig := s\<rparr>)) y = ring_get st y"
  by (simp add: ring_get_format_upd)

lemma FormatDestroy_unfold:
  assumes "FormatCheck A st f = Inr True" "RingRemove st (FormatArenaRing f) = Inr st1"
  shows "FormatDestroy A st f =
     Inr (ArenaFree (RingFinish (format_upd st1 f (\<lambda>x. x\<lparr>FormatStruct.sig := SigInvalid\<rparr>))
                       (FormatArenaRing f)) (arena (formats st f)) f)"
  using assms
  by (simp add: FormatDestroy_def AVERT_Format_def bindE_simps ASSERT_def Let_def
        format_upd_def RingRemove_frame [OF assms(2)])

subsection \<open>The constructor and the ring\<close>

lemma ring_path_retarget:
  assumes "ring_path R p xs h" "distinct (p # xs)"
    and "next' (R' (last (p # xs))) = Some n" "prev' (R' n) = Some (last (p # xs))"
    and nx: "\<And>y. y \<in> set (p # xs) \<Longrightarrow> y \<noteq> last (p # xs) \<Longrightarrow> next' (R' y) = next' (R y)"
    and pv: "\<And>y. y \<in> set xs \<Longrightarrow> prev' (R' y) = prev' (R y)"
  shows "ring_path R' p xs n"
  using assms
proof (induction xs arbitrary: p)
  case Nil
  then show ?case by simp
next
  case (Cons x xs)
  have l: "last (p # x # xs) = last (x # xs)" by simp
  have pl: "p \<noteq> last (x # xs)"
    using Cons.prems(2) last_in_set [of "x # xs"] by auto
  have 1: "next' (R' p) = next' (R p)"
    using Cons.prems(5) [of p] pl by simp
  have 2: "prev' (R' x) = prev' (R x)"
    using Cons.prems(6) [of x] by simp
  have 3: "ring_path R' x xs n"
  proof (rule Cons.IH)
    show "ring_path R x xs h" using Cons.prems(1) by simp
    show "distinct (x # xs)" using Cons.prems(2) by simp
    show "next' (R' (last (x # xs))) = Some n" using Cons.prems(3) by simp
    show "prev' (R' n) = Some (last (x # xs))" using Cons.prems(4) by simp
    show "\<And>y. y \<in> set (x # xs) \<Longrightarrow> y \<noteq> last (x # xs) \<Longrightarrow> next' (R' y) = next' (R y)"
      using Cons.prems(5) by simp
    show "\<And>y. y \<in> set xs \<Longrightarrow> prev' (R' y) = prev' (R y)"
      using Cons.prems(6) by simp
  qed
  from Cons.prems(1) 1 2 3 show ?case by simp
qed

lemma RingAppend_links:
  assumes "prev' (ring_get st ring) = Some q" "ring \<noteq> new" "q \<noteq> new"
  shows "\<exists>st'. RingAppend st ring new = Inr st' \<and>
    (\<forall>y. next' (ring_get st' y) =
       (if y = q then Some new else if y = new then Some ring else next' (ring_get st y))) \<and>
    (\<forall>y. prev' (ring_get st' y) =
       (if y = ring then Some new else if y = new then Some q else prev' (ring_get st y)))"
proof -
  let ?st' = "set_prev (set_next (set_next (set_prev st new (Some q)) new (Some ring)) q (Some new))
                ring (Some new)"
  have "RingAppend st ring new = Inr ?st'"
    using assms by (simp add: RingAppend_def Let_def)
  then show ?thesis using assms by auto
qed

text \<open>The constructor appends the node of the new descriptor to the ring of the arena,
  when the block it was given holds no member of that ring.\<close>

lemma FormatCreate_appends:
  assumes create: "FormatCreate A choice st formatReturn arena_arg alignment_arg variety_arg
             scan_arg skip_arg move_arg isMoved_arg copy_arg pad_arg class_arg = Inr (ResOK, st')"
    and ring: "is_ring st (ArenaFormatRing arena_arg) xs"
    and fresh: "FormatArenaRing (snd choice) \<notin> set xs"
  shows "is_ring st' (ArenaFormatRing arena_arg) (xs @ [FormatArenaRing (snd choice)])"
proof -
  from create obtain p S st4 where
    choice: "choice = (ResOK, p)" and
    S: "S = FormatCreate_assigned (st\<lparr>allocated := insert (arena_arg, p) (allocated st)\<rparr>)
           p arena_arg alignment_arg variety_arg scan_arg skip_arg move_arg
           isMoved_arg copy_arg pad_arg class_arg" and
    app: "RingAppend S (ArenaFormatRing arena_arg) (FormatArenaRing p) = Inr st4" and
    st': "st' = st4\<lparr>formatRefs := (formatRefs st4)(formatReturn := p)\<rparr>"
    by (rule FormatCreate_ResOK_D)
  let ?h = "ArenaFormatRing arena_arg" and ?new = "FormatArenaRing p"
  from ring have dist: "distinct (?h # xs)" and path: "ring_path (ring_get st) ?h xs ?h"
    by (simp_all add: is_ring_def)
  from fresh have new_out: "?new \<notin> set (?h # xs)" by (simp add: choice)
  have same: "ring_get S y = ring_get st y" if "y \<noteq> ?new" for y
    using that by (cases y) (simp_all add: S ring_get_assigned FormatCreate_assigned_fields ring_get_def)
  have "ring_path (ring_get S) ?h xs ?h = ring_path (ring_get st) ?h xs ?h"
  proof (rule ring_path_frame)
    fix y assume "y \<in> set (?h # xs)"
    with new_out have "y \<noteq> ?new" by auto
    then show "next' (ring_get S y) = next' (ring_get st y)" by (simp add: same)
  next
    fix y assume "y \<in> set (xs @ [?h])"
    with new_out have "y \<noteq> ?new" by auto
    then show "prev' (ring_get S y) = prev' (ring_get st y)" by (simp add: same)
  qed
  with path have pathS: "ring_path (ring_get S) ?h xs ?h" by simp
  define q where "q = last (?h # xs)"
  have q_in: "q \<in> set (?h # xs)" unfolding q_def by (rule last_in_set) simp
  have q_new: "q \<noteq> ?new" using q_in new_out by auto
  have pq: "prev' (ring_get S ?h) = Some q"
    using ring_path_last [OF pathS] by (simp add: q_def)
  have "?h \<noteq> ?new" by simp
  from RingAppend_links [OF pq this q_new] app
  have nx: "next' (ring_get st4 y) =
       (if y = q then Some ?new else if y = ?new then Some ?h else next' (ring_get S y))"
    and pv: "prev' (ring_get st4 y) =
       (if y = ?h then Some ?new else if y = ?new then Some q else prev' (ring_get S y))" for y
    by auto
  have 1: "ring_path (ring_get st4) ?h xs ?new"
  proof (rule ring_path_retarget [where R = "ring_get S" and h = ?h])
    show "ring_path (ring_get S) ?h xs ?h" by (rule pathS)
    show "distinct (?h # xs)" by (rule dist)
    show "next' (ring_get st4 (last (?h # xs))) = Some ?new"
      unfolding q_def [symmetric] by (simp add: nx)
    show "prev' (ring_get st4 ?new) = Some (last (?h # xs))"
      unfolding q_def [symmetric] by (simp add: pv)
    show "\<And>y. y \<in> set (?h # xs) \<Longrightarrow> y \<noteq> last (?h # xs) \<Longrightarrow>
            next' (ring_get st4 y) = next' (ring_get S y)"
      unfolding q_def [symmetric] using new_out by (auto simp: nx)
    show "\<And>y. y \<in> set xs \<Longrightarrow> prev' (ring_get st4 y) = prev' (ring_get S y)"
      using new_out dist by (auto simp: pv)
  qed
  have 2: "ring_path (ring_get st4) ?new [] ?h"
    using q_new by (simp add: nx pv)
  have "ring_path (ring_get st4) ?h (xs @ [?new]) ?h"
    using 1 2 by (simp add: ring_path_append)
  moreover have "ring_get st' = ring_get st4"
    by (simp add: st' fun_eq_iff)
  ultimately show ?thesis
    using dist new_out by (simp add: is_ring_def choice)
qed

subsection \<open>Frames of the constructor and the destructor\<close>

lemma FormatCreate_Inr_cases:
  assumes "FormatCreate A choice st formatReturn arena_arg alignment_arg variety_arg
             scan_arg skip_arg move_arg isMoved_arg copy_arg pad_arg class_arg = Inr (res, st')"
  shows "(res = ResOK \<and> fst choice = ResOK) \<or> (res \<noteq> ResOK \<and> fst choice = res \<and> st' = st)"
proof -
  obtain r p where choice: "choice = (r, p)" by (cases choice)
  from assms show ?thesis
    unfolding choice FormatCreate_unfold
    by (auto simp: bindE_Inr_iff split: if_splits)
qed

lemma FormatCreate_ResOK_facts:
  assumes "FormatCreate A choice st formatReturn arena_arg alignment_arg variety_arg
             scan_arg skip_arg move_arg isMoved_arg copy_arg pad_arg class_arg = Inr (ResOK, st')"
  shows "formatRefs st' formatReturn = snd choice"
    "fst choice = ResOK"
    "FormatStruct.serial (formats st' (snd choice)) = formatSerial (arenas st arena_arg)"
    "arena (formats st' (snd choice)) = arena_arg"
    "formatSerial (arenas st arena_arg) < formatSerial (arenas st arena_arg) + 1"
    "formatSerial (arenas st' a) =
       (if a = arena_arg then formatSerial (arenas st a) + 1 else formatSerial (arenas st a))"
    "g \<noteq> snd choice \<Longrightarrow> arena (formats st' g) = arena (formats st g)"
    "g \<noteq> snd choice \<Longrightarrow> FormatStruct.serial (formats st' g) = FormatStruct.serial (formats st g)"
proof -
  from assms obtain p S st4 where
    choice: "choice = (ResOK, p)" and
    S: "S = FormatCreate_assigned (st\<lparr>allocated := insert (arena_arg, p) (allocated st)\<rparr>)
           p arena_arg alignment_arg variety_arg scan_arg skip_arg move_arg
           isMoved_arg copy_arg pad_arg class_arg" and
    chk: "FormatCheck A S p = Inr True" and
    app: "RingAppend S (ArenaFormatRing arena_arg) (FormatArenaRing p) = Inr st4" and
    st': "st' = st4\<lparr>formatRefs := (formatRefs st4)(formatReturn := p)\<rparr>"
    by (rule FormatCreate_ResOK_D)
  have fm: "formats st' = formats st4" "arenas st' = arenas st4" by (simp_all add: st')
  show "formatRefs st' formatReturn = snd choice" by (simp add: st' choice)
  show "fst choice = ResOK" by (simp add: choice)
  show "FormatStruct.serial (formats st' (snd choice)) = formatSerial (arenas st arena_arg)"
    unfolding fm choice by (simp add: RingAppend_frame [OF app] S FormatCreate_assigned_fields)
  show "arena (formats st' (snd choice)) = arena_arg"
    unfolding fm choice by (simp add: RingAppend_frame [OF app] S FormatCreate_assigned_fields)
  have "FormatStruct.serial (formats S p) < formatSerial (arenas S (arena (formats S p)))"
    using chk unfolding FormatCheck_True_iff by simp
  then show "formatSerial (arenas st arena_arg) < formatSerial (arenas st arena_arg) + 1"
    by (simp add: S FormatCreate_assigned_fields)
  show "formatSerial (arenas st' a) =
       (if a = arena_arg then formatSerial (arenas st a) + 1 else formatSerial (arenas st a))"
    unfolding fm by (simp add: RingAppend_frame [OF app] S FormatCreate_assigned_fields)
  show "g \<noteq> snd choice \<Longrightarrow> arena (formats st' g) = arena (formats st g)"
    unfolding fm choice by (simp add: RingAppend_frame [OF app] S FormatCreate_assigned_fields)
  show "g \<noteq> snd choice \<Longrightarrow> FormatStruct.serial (formats st' g) = FormatStruct.serial (formats st g)"
    unfolding fm choice by (simp add: RingAppend_frame [OF app] S FormatCreate_assigned_fields)
qed

lemma FormatCreate_ResOK_class:
  assumes "FormatCreate A choice st formatReturn arena_arg alignment_arg variety_arg
             scan_arg skip_arg move_arg isMoved_arg copy_arg pad_arg class_arg = Inr (ResOK, st')"
  shows "class_arg = FunNULL \<Longrightarrow> variety_arg = FormatVarietyA"
    "class' (formats st' (formatRefs st' formatReturn)) =
       (if class_arg = FunNULL then FormatDefaultClassFun else class_arg)"
proof -
  obtain res p where choice: "choice = (res, p)" by (cases choice)
  from assms show "class_arg = FunNULL \<Longrightarrow> variety_arg = FormatVarietyA"
    unfolding choice FormatCreate_unfold by (auto split: if_splits)
  from assms obtain p S st4 where
    S: "S = FormatCreate_assigned (st\<lparr>allocated := insert (arena_arg, p) (allocated st)\<rparr>)
           p arena_arg alignment_arg variety_arg scan_arg skip_arg move_arg
           isMoved_arg copy_arg pad_arg class_arg" and
    app: "RingAppend S (ArenaFormatRing arena_arg) (FormatArenaRing p) = Inr st4" and
    st': "st' = st4\<lparr>formatRefs := (formatRefs st4)(formatReturn := p)\<rparr>"
    by (rule FormatCreate_ResOK_D)
  show "class' (formats st' (formatRefs st' formatReturn)) =
       (if class_arg = FunNULL then FormatDefaultClassFun else class_arg)"
    by (simp add: st' RingAppend_frame [OF app] S FormatCreate_assigned_fields)
qed

lemma FormatCreate_succeeds:
  assumes "formatReturn \<noteq> NULL" "p \<noteq> NULL" "CHECKT_Arena st arena_arg"
    "formatSerial (arenas st arena_arg) < formatSerial (arenas st arena_arg) + 1"
    "prev' (formatRing (arenas st arena_arg)) \<noteq> None"
    "AlignCheck alignment_arg"
    "variety_arg = FormatVarietyA \<or> variety_arg = FormatVarietyB"
    "FUNCHECK scan_arg" "FUNCHECK skip_arg" "FUNCHECK move_arg"
    "FUNCHECK isMoved_arg" "FUNCHECK copy_arg" "FUNCHECK pad_arg"
    "class_arg = FunNULL \<longrightarrow> variety_arg = FormatVarietyA"
  shows "\<exists>st'. FormatCreate AlignCheck (ResOK, p) st formatReturn arena_arg alignment_arg
                 variety_arg scan_arg skip_arg move_arg isMoved_arg copy_arg pad_arg class_arg
               = Inr (ResOK, st')"
proof -
  define S where "S = FormatCreate_assigned (st\<lparr>allocated := insert (arena_arg, p) (allocated st)\<rparr>)
           p arena_arg alignment_arg variety_arg scan_arg skip_arg move_arg
           isMoved_arg copy_arg pad_arg class_arg"
  have rc: "RingCheck S (FormatArenaRing p)"
    by (simp add: RingCheck_iff S_def ring_get_assigned FormatCreate_assigned_fields)
  have chk: "FormatCheck AlignCheck S p = Inr True"
    unfolding FormatCheck_True_iff using assms(2-4,6-13) rc
    by (simp add: S_def FormatCreate_assigned_fields CHECKT_Format_def CHECKT_Arena_def FUNCHECK_def)
  have "prev' (ring_get S (ArenaFormatRing arena_arg)) \<noteq> None"
    using assms(5) by (simp add: S_def ring_get_assigned)
  then obtain st4 where app: "RingAppend S (ArenaFormatRing arena_arg) (FormatArenaRing p) = Inr st4"
    using RingAppend_Inr by blast
  show ?thesis
    using assms(1,14) chk app
    by (simp add: FormatCreate_unfold S_def [symmetric] AVERT_Format_def bindE_simps ASSERT_def)
qed

lemma FormatDestroy_Inr_D:
  assumes "FormatDestroy A st f = Inr st'"
  obtains st1 where "FormatCheck A st f = Inr True"
    "RingRemove st (FormatArenaRing f) = Inr st1"
    "st' = ArenaFree (RingFinish (format_upd st1 f (\<lambda>x. x\<lparr>FormatStruct.sig := SigInvalid\<rparr>))
                        (FormatArenaRing f)) (arena (formats st f)) f"
proof -
  from assms have chk: "FormatCheck A st f = Inr True"
    by (auto simp: FormatDestroy_def bindE_Inr_iff AVERT_Format_iff)
  with assms obtain st1 where rm: "RingRemove st (FormatArenaRing f) = Inr st1"
    by (auto simp: FormatDestroy_def bindE_Inr_iff)
  from assms show ?thesis
    unfolding FormatDestroy_unfold [OF chk rm] using chk rm by (auto intro: that)
qed

lemma FormatDestroy_frame:
  assumes "FormatDestroy A st f = Inr st'"
  shows "arena (formats st' g) = arena (formats st g)"
    "FormatStruct.serial (formats st' g) = FormatStruct.serial (formats st g)"
    "formatSerial (arenas st' a) = formatSerial (arenas st a)"
    "FormatStruct.sig (formats st' f) = SigInvalid"
proof -
  from assms obtain st1 where
    rm: "RingRemove st (FormatArenaRing f) = Inr st1" and
    st': "st' = ArenaFree (RingFinish (format_upd st1 f (\<lambda>x. x\<lparr>FormatStruct.sig := SigInvalid\<rparr>))
                        (FormatArenaRing f)) (arena (formats st f)) f"
    by (rule FormatDestroy_Inr_D)
  show "arena (formats st' g) = arena (formats st g)"
    by (simp add: st' ArenaFree_def format_upd_def RingRemove_frame [OF rm])
  show "FormatStruct.serial (formats st' g) = FormatStruct.serial (formats st g)"
    by (simp add: st' ArenaFree_def format_upd_def RingRemove_frame [OF rm])
  show "formatSerial (arenas st' a) = formatSerial (arenas st a)"
    by (simp add: st' ArenaFree_def format_upd_def RingRemove_frame [OF rm])
  show "FormatStruct.sig (formats st' f) = SigInvalid"
    by (simp add: st' ArenaFree_def format_upd_def)
qed

subsection \<open>Runs\<close>

lemma issued_simps [simp]:
  "issued a [] = []"
  "issued a (xs @ ys) = issued a xs @ issued a ys"
  "issued a [(b, f, s)] = (if b = a then [s] else [])"
  by (simp_all add: issued_def)

lemma step_frame:
  assumes "step A st x = Inr (ev, st1)" "g \<notin> set (created_at x)"
  shows "arena (formats st1 g) = arena (formats st g)"
    "FormatStruct.serial (formats st1 g) = FormatStruct.serial (formats st g)"
proof -
  have "arena (formats st1 g) = arena (formats st g) \<and>
        FormatStruct.serial (formats st1 g) = FormatStruct.serial (formats st g)"
  proof (cases x)
    case (Create choice formatReturn arena_arg alignment_arg variety_arg
            scan_arg skip_arg move_arg isMoved_arg copy_arg pad_arg class_arg)
    with assms(1) obtain res where
      cr: "FormatCreate A choice st formatReturn arena_arg alignment_arg variety_arg
             scan_arg skip_arg move_arg isMoved_arg copy_arg pad_arg class_arg = Inr (res, st1)"
      by (auto simp: bindE_Inr_iff)
    show ?thesis
    proof (cases "res = ResOK")
      case True
      with FormatCreate_Inr_cases [OF cr] have "fst choice = ResOK" by simp
      with assms(2) Create have "g \<noteq> snd choice" by simp
      with FormatCreate_ResOK_facts(7,8) [OF cr [unfolded True]] show ?thesis by simp
    next
      case False
      with FormatCreate_Inr_cases [OF cr] show ?thesis by simp
    qed
  next
    case (Destroy f)
    with assms(1) have "FormatDestroy A st f = Inr st1"
      by (auto simp: bindE_Inr_iff)
    from FormatDestroy_frame(1,2) [OF this] show ?thesis by simp
  qed
  then show "arena (formats st1 g) = arena (formats st g)"
    "FormatStruct.serial (formats st1 g) = FormatStruct.serial (formats st g)"
    by simp_all
qed

lemma step_counter:
  assumes "step A st x = Inr (ev, st1)"
  shows "formatSerial (arenas st a) \<le> formatSerial (arenas st1 a) \<and>
         (issued a ev = [] \<or>
          issued a ev = [formatSerial (arenas st a)] \<and>
          formatSerial (arenas st a) < formatSerial (arenas st1 a))"
proof (cases x)
  case (Create choice formatReturn arena_arg alignment_arg variety_arg
          scan_arg skip_arg move_arg isMoved_arg copy_arg pad_arg class_arg)
  with assms obtain res where
    cr: "FormatCreate A choice st formatReturn arena_arg alignment_arg variety_arg
           scan_arg skip_arg move_arg isMoved_arg copy_arg pad_arg class_arg = Inr (res, st1)" and
    ev: "ev = (if res = ResOK
               then [(arena_arg, formatRefs st1 formatReturn,
                      FormatStruct.serial (formats st1 (formatRefs st1 formatReturn)))]
               else [])"
    by (auto simp: bindE_Inr_iff)
  show ?thesis
  proof (cases "res = ResOK")
    case True
    note f = FormatCreate_ResOK_facts [OF cr [unfolded True]]
    show ?thesis
      using f(5) by (simp add: ev True f(1) f(3) f(6) less_imp_le)
  next
    case False
    with FormatCreate_Inr_cases [OF cr] show ?thesis by (simp add: ev)
  qed
next
  case (Destroy f)
  with assms have "FormatDestroy A st f = Inr st1" "ev = []"
    by (auto simp: bindE_Inr_iff)
  with FormatDestroy_frame(3) [OF this(1)] show ?thesis by simp
qed

lemma run_Cons_D:
  assumes "run A st (x # xs) = Inr (log, st')"
  obtains ev st1 log' where "step A st x = Inr (ev, st1)" "run A st1 xs = Inr (log', st')"
    "log = ev @ log'"
  using assms by (auto simp: bindE_Inr_iff)

lemma run_frame:
  assumes "run A st ops = Inr (log, st')" "g \<notin> set (concat (map created_at ops))"
  shows "arena (formats st' g) = arena (formats st g) \<and>
         FormatStruct.serial (formats st' g) = FormatStruct.serial (formats st g)"
  using assms
proof (induction ops arbitrary: st log)
  case Nil
  then show ?case by simp
next
  case (Cons x xs)
  from Cons.prems(1) obtain ev st1 log' where
    s: "step A st x = Inr (ev, st1)" and r: "run A st1 xs = Inr (log', st')"
    by (rule run_Cons_D)
  from Cons.prems(2) have g: "g \<notin> set (created_at x)" "g \<notin> set (concat (map created_at xs))"
    by simp_all
  from Cons.IH [OF r g(2)] step_frame [OF s g(1)] show ?case by simp
qed

lemma run_serials:
  assumes "run A st ops = Inr (log, st')"
  shows "formatSerial (arenas st a) \<le> formatSerial (arenas st' a) \<and>
         sorted_wrt (<) (issued a log) \<and>
         (\<forall>s \<in> set (issued a log).
            formatSerial (arenas st a) \<le> s \<and> s < formatSerial (arenas st' a))"
  using assms
proof (induction ops arbitrary: st log)
  case Nil
  then show ?case by simp
next
  case (Cons x xs)
  from Cons.prems obtain ev st1 log' where
    s: "step A st x = Inr (ev, st1)" and r: "run A st1 xs = Inr (log', st')" and
    log: "log = ev @ log'"
    by (rule run_Cons_D)
  note ih = Cons.IH [OF r]
  note sc = step_counter [OF s, of a]
  from sc show ?case
  proof (elim conjE disjE)
    assume "issued a ev = []" "formatSerial (arenas st a) \<le> formatSerial (arenas st1 a)"
    with ih show ?thesis by (auto simp: log)
  next
    assume "issued a ev = [formatSerial (arenas st a)]"
      "formatSerial (arenas st a) < formatSerial (arenas st1 a)"
      "formatSerial (arenas st a) \<le> formatSerial (arenas st1 a)"
    with ih show ?thesis by (auto simp: log sorted_wrt_append)
  qed
qed

subsection \<open>The destructor and the methods of the descriptor\<close>

lemma ring_get_with_methods [simp]:
  "ring_get (with_methods st f s k m i c p cl) r = ring_get st r"
  by (simp add: with_methods_def ring_get_format_upd)

lemma ring_set_with_methods:
  "ring_set (with_methods st f s k m i c p cl) r v = with_methods (ring_set st r v) f s k m i c p cl"
  by (cases r) (auto simp: with_methods_def format_upd_def ring_set_def fun_eq_iff)

lemma set_links_with_methods:
  "set_next (with_methods st f s k m i c p cl) r v = with_methods (set_next st r v) f s k m i c p cl"
  "set_prev (with_methods st f s k m i c p cl) r v = with_methods (set_prev st r v) f s k m i c p cl"
  by (simp_all add: set_next_def set_prev_def ring_set_with_methods)

lemma RingRemove_with_methods:
  assumes "RingRemove st old = Inr st1"
  shows "RingRemove (with_methods st f s k m i c p cl) old = Inr (with_methods st1 f s k m i c p cl)"
  using assms
  by (auto simp: RingRemove_def Let_def set_links_with_methods split: option.splits)

lemma FormatCheck_with_methods:
  assumes "FormatCheck A st f = Inr True"
    "FUNCHECK s" "FUNCHECK k" "FUNCHECK m" "FUNCHECK i" "FUNCHECK c" "FUNCHECK p" "FUNCHECK cl"
  shows "FormatCheck A (with_methods st f s k m i c p cl) f = Inr True"
proof -
  have "RingCheck (with_methods st f s k m i c p cl) (FormatArenaRing f)
        = RingCheck st (FormatArenaRing f)"
    by (simp add: RingCheck_iff)
  with assms show ?thesis
    unfolding FormatCheck_True_iff
    by (simp add: with_methods_def format_upd_def CHECKT_Format_def CHECKT_Arena_def)
qed

lemma FormatDestroy_with_methods:
  assumes "FormatDestroy A st f = Inr st'"
    "FUNCHECK s" "FUNCHECK k" "FUNCHECK m" "FUNCHECK i" "FUNCHECK c" "FUNCHECK p" "FUNCHECK cl"
  shows "FormatDestroy A (with_methods st f s k m i c p cl) f
         = Inr (with_methods st' f s k m i c p cl)"
proof -
  from assms(1) obtain st1 where
    chk: "FormatCheck A st f = Inr True" and
    rm: "RingRemove st (FormatArenaRing f) = Inr st1" and
    st': "st' = ArenaFree (RingFinish (format_upd st1 f (\<lambda>x. x\<lparr>FormatStruct.sig := SigInvalid\<rparr>))
                        (FormatArenaRing f)) (arena (formats st f)) f"
    by (rule FormatDestroy_Inr_D)
  note chk' = FormatCheck_with_methods [OF chk assms(2-8)]
  note rm' = RingRemove_with_methods [OF rm, of f s k m i c p cl]
  show ?thesis
    unfolding FormatDestroy_unfold [OF chk' rm'] st'
    by (auto intro!: mpm_state.equality FormatStruct.equality
          simp: with_methods_def format_upd_def ArenaFree_def RingFinish_def set_next_def
            set_prev_def ring_set_def ring_get_def fun_eq_iff)
qed

subsection \<open>The signature of a destroyed descriptor\<close>

lemma FormatCreate_sig_frame:
  assumes "FormatCreate A choice st formatReturn arena_arg alignment_arg variety_arg
             scan_arg skip_arg move_arg isMoved_arg copy_arg pad_arg class_arg = Inr (ResOK, st')"
    "g \<noteq> snd choice"
  shows "FormatStruct.sig (formats st' g) = FormatStruct.sig (formats st g)"
proof -
  from assms(1) obtain p S st4 where
    choice: "choice = (ResOK, p)" and
    S: "S = FormatCreate_assigned (st\<lparr>allocated := insert (arena_arg, p) (allocated st)\<rparr>)
           p arena_arg alignment_arg variety_arg scan_arg skip_arg move_arg
           isMoved_arg copy_arg pad_arg class_arg" and
    app: "RingAppend S (ArenaFormatRing arena_arg) (FormatArenaRing p) = Inr st4" and
    st': "st' = st4\<lparr>formatRefs := (formatRefs st4)(formatReturn := p)\<rparr>"
    by (rule FormatCreate_ResOK_D)
  from assms(2) show ?thesis
    by (simp add: st' choice RingAppend_frame [OF app] S FormatCreate_assigned_fields)
qed

lemma FormatDestroy_sig:
  assumes "FormatDestroy A st f = Inr st'"
  shows "FormatStruct.sig (formats st' g) =
           (if g = f then SigInvalid else FormatStruct.sig (formats st g))"
proof -
  from assms obtain st1 where
    rm: "RingRemove st (FormatArenaRing f) = Inr st1" and
    st': "st' = ArenaFree (RingFinish (format_upd st1 f (\<lambda>x. x\<lparr>FormatStruct.sig := SigInvalid\<rparr>))
                        (FormatArenaRing f)) (arena (formats st f)) f"
    by (rule FormatDestroy_Inr_D)
  show ?thesis
    by (simp add: st' ArenaFree_def format_upd_def RingRemove_frame [OF rm])
qed

lemma step_sig_invalid:
  assumes "step A st x = Inr (ev, st1)" "g \<notin> set (created_at x)"
    "FormatStruct.sig (formats st g) = SigInvalid"
  shows "FormatStruct.sig (formats st1 g) = SigInvalid"
proof (cases x)
  case (Create choice formatReturn arena_arg alignment_arg variety_arg
          scan_arg skip_arg move_arg isMoved_arg copy_arg pad_arg class_arg)
  with assms(1) obtain res where
    cr: "FormatCreate A choice st formatReturn arena_arg alignment_arg variety_arg
           scan_arg skip_arg move_arg isMoved_arg copy_arg pad_arg class_arg = Inr (res, st1)"
    by (auto simp: bindE_Inr_iff)
  show ?thesis
  proof (cases "res = ResOK")
    case True
    with FormatCreate_Inr_cases [OF cr] have "fst choice = ResOK" by simp
    with assms(2) Create have "g \<noteq> snd choice" by simp
    with FormatCreate_sig_frame [OF cr [unfolded True]] assms(3) show ?thesis by simp
  next
    case False
    with FormatCreate_Inr_cases [OF cr] assms(3) show ?thesis by simp
  qed
next
  case (Destroy f)
  with assms(1) have "FormatDestroy A st f = Inr st1"
    by (auto simp: bindE_Inr_iff)
  from FormatDestroy_sig [OF this, of g] assms(3) show ?thesis by simp
qed

lemma run_sig_invalid:
  assumes "run A st ops = Inr (log, st')" "g \<notin> set (concat (map created_at ops))"
    "FormatStruct.sig (formats st g) = SigInvalid"
  shows "FormatStruct.sig (formats st' g) = SigInvalid"
  using assms
proof (induction ops arbitrary: st log)
  case Nil
  then show ?case by simp
next
  case (Cons x xs)
  from Cons.prems(1) obtain ev st1 log' where
    s: "step A st x = Inr (ev, st1)" and r: "run A st1 xs = Inr (log', st')"
    by (rule run_Cons_D)
  from Cons.prems(2) have g: "g \<notin> set (created_at x)" "g \<notin> set (concat (map created_at xs))"
    by simp_all
  from Cons.IH [OF r g(2) step_sig_invalid [OF s g(1) Cons.prems(3)]] show ?case .
qed

subsection \<open>The state a destruction leaves\<close>

lemma FormatDestroy_state:
  assumes chk: "FormatCheck AlignCheck st format = Inr True"
  shows "\<exists>st'. FormatDestroy AlignCheck st format = Inr st' \<and>
           FormatCheck AlignCheck st' format = Inl (AssertFail SigCheck_Format) \<and>
           FormatStruct.sig (formats st' format) = SigInvalid \<and>
           (\<forall>h ys. is_ring st' h ys \<longrightarrow> FormatArenaRing format \<notin> set ys) \<and>
           (is_ring st (ArenaFormatRing (arena (formats st format))) xs \<longrightarrow>
              is_ring st' (ArenaFormatRing (arena (formats st format)))
                (remove1 (FormatArenaRing format) xs)) \<and>
           allocated st' = allocated st - {(arena (formats st format), format)}"
proof -
  let ?old = "FormatArenaRing format"
  let ?h = "ArenaFormatRing (arena (formats st format))"
  let ?R = "ring_get st"
  have rc: "RingCheck st ?old"
    using chk by (simp add: FormatCheck_True_iff)
  then obtain n p where
    np: "next' (?R ?old) = Some n" "prev' (?R n) = Some ?old"
        "prev' (?R ?old) = Some p" "next' (?R p) = Some ?old"
    by (auto simp: RingCheck_iff)
  from RingRemove_links [OF rc] obtain st1 where
    rm: "RingRemove st ?old = Inr st1" and
    nx1: "\<forall>y. next' (ring_get st1 y) =
       (if y = ?old then Some ?old
        else if prev' (?R ?old) = Some y then next' (?R ?old) else next' (?R y))" and
    pv1: "\<forall>y. prev' (ring_get st1 y) =
       (if y = ?old then Some ?old
        else if next' (?R ?old) = Some y then prev' (?R ?old) else prev' (?R y))"
    by blast
  define st' where
    "st' = ArenaFree (RingFinish (format_upd st1 format (\<lambda>x. x\<lparr>FormatStruct.sig := SigInvalid\<rparr>))
                        ?old) (arena (formats st format)) format"
  have dest: "FormatDestroy AlignCheck st format = Inr st'"
    unfolding st'_def by (rule FormatDestroy_unfold [OF chk rm])
  have nx: "next' (ring_get st' y) =
       (if y = ?old then None else if p = y then Some n else next' (?R y))" for y
    by (simp add: st'_def nx1 np)
  have pv: "prev' (ring_get st' y) =
       (if y = ?old then None else if n = y then Some p else prev' (?R y))" for y
    by (simp add: st'_def pv1 np)
  have sg: "FormatStruct.sig (formats st' format) = SigInvalid"
    by (simp add: st'_def ArenaFree_def format_upd_def)
  have c1: "FormatCheck AlignCheck st' format = Inl (AssertFail SigCheck_Format)"
    by (simp add: FormatCheck_def ASSERT_def CHECKT_Format_def sg)
  have al: "allocated st' = allocated st - {(arena (formats st format), format)}"
    by (simp add: st'_def ArenaFree_def format_upd_def RingRemove_frame [OF rm])
  have out: "?old \<notin> set ys" if r: "is_ring st' h ys" for h ys
  proof
    assume "?old \<in> set ys"
    then have "?old \<in> set (h # ys)" by simp
    from ring_path_next_in [OF _ this, of "ring_get st'" h] r
    show False by (auto simp: is_ring_def nx)
  qed
  have r': "is_ring st' ?h (remove1 ?old xs)" if ring: "is_ring st ?h xs"
  proof -
  from ring have dist: "distinct (?h # xs)" and path: "ring_path ?R ?h xs ?h"
    by (simp_all add: is_ring_def)
  have path': "ring_path (ring_get st') ?h (remove1 ?old xs) ?h"
  proof (cases "?old \<in> set xs")
    case True
    then obtain ys zs where xs: "xs = ys @ ?old # zs"
      by (auto simp: in_set_conv_decomp)
    have rem: "remove1 ?old xs = ys @ zs"
      using dist xs by (simp add: remove1_append)
    from path xs have p1: "ring_path ?R ?h ys ?old" and p2: "ring_path ?R ?old zs ?h"
      by (simp_all add: ring_path_append)
    have p_eq: "p = last (?h # ys)"
      using ring_path_last [OF p1] np(3) by simp
    have n_eq: "n = hd (zs @ [?h])"
      using ring_path_first [OF p2] np(1) by simp
    have hd_in: "hd (zs @ [?h]) \<in> set (zs @ [?h])" by (cases zs) auto
    have last_in: "last (?h # ys) \<in> set (?h # ys)" by (rule last_in_set) simp
    have n_old: "n \<noteq> ?old" using hd_in dist xs n_eq by auto
    have p_old: "p \<noteq> ?old" using last_in dist xs p_eq by auto
    show ?thesis
      unfolding rem
    proof (rule ring_path_remove [where R = ?R and old = ?old])
      show "ring_path ?R ?h (ys @ ?old # zs) ?h" using path xs by simp
      show "distinct (?h # ys @ ?old # zs)" using dist xs by simp
      show "?h \<notin> set (ys @ ?old # zs)" using dist xs by simp
      show "next' (ring_get st' (last (?h # ys))) = Some (hd (zs @ [?h]))"
        using p_old by (simp only: nx p_eq [symmetric] n_eq [symmetric]) simp
      show "prev' (ring_get st' (hd (zs @ [?h]))) = Some (last (?h # ys))"
        using n_old by (simp only: pv p_eq [symmetric] n_eq [symmetric]) simp
      show "\<And>y. y \<noteq> last (?h # ys) \<Longrightarrow> y \<noteq> ?old \<Longrightarrow>
              next' (ring_get st' y) = next' (?R y)"
        by (simp add: nx p_eq)
      show "\<And>y. y \<noteq> hd (zs @ [?h]) \<Longrightarrow> y \<noteq> ?old \<Longrightarrow>
              prev' (ring_get st' y) = prev' (?R y)"
        by (simp add: pv n_eq)
    qed
  next
    case False
    have n_out: "n \<notin> set (xs @ [?h])"
    proof
      assume "n \<in> set (xs @ [?h])"
      from ring_path_prev_in [OF path this] np(2) have "?old \<in> set (?h # xs)" by auto
      with False show False by simp
    qed
    have p_out: "p \<notin> set (?h # xs)"
    proof
      assume "p \<in> set (?h # xs)"
      from ring_path_next_in [OF path this] np(4) have "?old \<in> set (xs @ [?h])" by auto
      with False show False by simp
    qed
    have "ring_path (ring_get st') ?h xs ?h = ring_path ?R ?h xs ?h"
    proof (rule ring_path_frame)
      fix y assume "y \<in> set (?h # xs)"
      then show "next' (ring_get st' y) = next' (?R y)"
        using p_out False by (auto simp: nx)
    next
      fix y assume "y \<in> set (xs @ [?h])"
      then show "prev' (ring_get st' y) = prev' (?R y)"
        using n_out False by (auto simp: pv)
    qed
    with path False show ?thesis by (simp add: remove1_idem)
  qed
  show ?thesis
    using dist path' by (simp add: is_ring_def)
  qed
  from dest c1 sg r' out al show ?thesis by blast
qed

subsection \<open>The example states\<close>

lemmas example_defs =
  state1_def state2_def arena0_def arena1_def format0_def format10_def align_pow2_def

lemma create_state1:
  "FormatCreate align_pow2 (ResOK, 10) state1 5 1 8 FormatVarietyA
     (ClientFun 1) (ClientFun 2) (ClientFun 3) (ClientFun 4) (ClientFun 5) (ClientFun 6) FunNULL
   = Inr (ResOK, state2)"
  by (simp add: FormatCreate_unfold bindE_def AVERT_Format_def FormatCheck_def ASSERT_def
      FormatCreate_assigned_def Let_def format_upd_def arena_upd_def RingInit_def RingAppend_def
      RingCheck_def set_next_def set_prev_def ring_get_def ring_set_def
      CHECKT_Format_def CHECKT_Arena_def FUNCHECK_def example_defs)

lemmas eval_defs =
  bindE_def AVERT_Format_def FormatCheck_def ASSERT_def Let_def format_upd_def arena_upd_def
  RingInit_def RingAppend_def RingRemove_def RingFinish_def RingCheck_def set_next_def
  set_prev_def ring_get_def ring_set_def ArenaFree_def CHECKT_Format_def CHECKT_Arena_def
  FUNCHECK_def

lemma check_state2: "FormatCheck align_pow2 state2 10 = Inr True"
  by (simp add: eval_defs example_defs)

lemma ring_state2: "is_ring state2 (ArenaFormatRing 1) [FormatArenaRing 10]"
  by (simp add: is_ring_def ring_get_def example_defs)

lemma destroy_state2: "FormatDestroy align_pow2 state2 10 = Inr state3"
  by (simp add: FormatDestroy_def eval_defs example_defs state3_def)

lemma create_state3:
  "FormatCreate align_pow2 (ResOK, 10) state3 5 1 8 FormatVarietyA
     (ClientFun 1) (ClientFun 2) (ClientFun 3) (ClientFun 4) (ClientFun 5) (ClientFun 6) FunNULL
   = Inr (ResOK, state4)"
  by (simp add: FormatCreate_unfold FormatCreate_assigned_def eval_defs example_defs
        state3_def state4_def)

lemma create_fail_state3:
  "FormatCreate align_pow2 (ResFail 3, 0) state3 5 1 8 FormatVarietyA
     (ClientFun 1) (ClientFun 2) (ClientFun 3) (ClientFun 4) (ClientFun 5) (ClientFun 6) FunNULL
   = Inr (ResFail 3, state3)"
  by (simp add: FormatCreate_unfold)

lemma check_state4: "FormatCheck align_pow2 state4 10 = Inr True"
  by (simp add: eval_defs example_defs state4_def)

lemma create_state3_other:
  "FormatCreate align_pow2 (ResOK, 11) state3 6 1 4 FormatVarietyB
     (ClientFun 1) (ClientFun 2) (ClientFun 3) (ClientFun 4) (ClientFun 5) (ClientFun 6) (ClientFun 7)
   = Inr (ResOK, state5)"
  by (simp add: FormatCreate_unfold FormatCreate_assigned_def eval_defs example_defs
        state3_def state5_def format11_def)

lemma run_example_ops:
  "run align_pow2 state1 example_ops = Inr ([(1, 10, 3), (1, 10, 4)], state4)"
proof -
  have 1: "formatRefs state2 5 = 10" "FormatStruct.serial (formats state2 10) = 3"
    by (simp_all add: example_defs)
  have 2: "formatRefs state4 5 = 10" "FormatStruct.serial (formats state4 10) = 4"
    by (simp_all add: example_defs state4_def)
  show ?thesis
    by (simp only: example_ops_def run.simps step.simps create_state1 destroy_state2
          create_fail_state3 create_state3 bindE_simps prod.case 1 2 if_True if_False
          Res.simps append.simps simp_thms)
qed

section \<open>The claims\<close>

text \<open>C1. For every successful call of the constructor, the descriptor written to
  \<open>*formatReturn\<close> passes \<open>FormatCheck\<close> in the state the call leaves, its serial number is
  the value the arena's counter \<open>formatSerial\<close> had before the call, and the counter after
  the call is that serial number plus one; the counter did not wrap, so it went up by
  exactly one.\<close>

theorem FormatCreate_valid:
  assumes "FormatCreate AlignCheck choice st formatReturn arena_arg alignment_arg variety_arg
             scan_arg skip_arg move_arg isMoved_arg copy_arg pad_arg class_arg = Inr (ResOK, st')"
  shows "FormatCheck AlignCheck st' (formatRefs st' formatReturn) = Inr True \<and>
         FormatStruct.serial (formats st' (formatRefs st' formatReturn))
           = formatSerial (arenas st arena_arg) \<and>
         formatSerial (arenas st' arena_arg)
           = FormatStruct.serial (formats st' (formatRefs st' formatReturn)) + 1 \<and>
         unat (formatSerial (arenas st' arena_arg))
           = unat (formatSerial (arenas st arena_arg)) + 1"
proof -
  from assms obtain p S st4 where
    S: "S = FormatCreate_assigned (st\<lparr>allocated := insert (arena_arg, p) (allocated st)\<rparr>)
           p arena_arg alignment_arg variety_arg scan_arg skip_arg move_arg
           isMoved_arg copy_arg pad_arg class_arg" and
    chk: "FormatCheck AlignCheck S p = Inr True" and
    app: "RingAppend S (ArenaFormatRing arena_arg) (FormatArenaRing p) = Inr st4" and
    st': "st' = st4\<lparr>formatRefs := (formatRefs st4)(formatReturn := p)\<rparr>"
    by (rule FormatCreate_ResOK_D)
  have ret: "formatRefs st' formatReturn = p" by (simp add: st')
  have fm: "formats st' = formats st4" "arenas st' = arenas st4" by (simp_all add: st')
  have rc: "RingCheck st' (FormatArenaRing p)"
    using RingAppend_new_ok [OF app] by (simp add: st')
  have c1: "FormatCheck AlignCheck st' p = Inr True"
    using chk rc unfolding FormatCheck_True_iff CHECKT_Format_def CHECKT_Arena_def fm
    by (simp add: RingAppend_frame [OF app])
  have ser: "FormatStruct.serial (formats st' p) = formatSerial (arenas st arena_arg)"
    unfolding fm by (simp add: RingAppend_frame [OF app] S FormatCreate_assigned_fields)
  have cnt: "formatSerial (arenas st' arena_arg) = formatSerial (arenas st arena_arg) + 1"
    unfolding fm by (simp add: RingAppend_frame [OF app] S FormatCreate_assigned_fields)
  have "FormatStruct.serial (formats S p) < formatSerial (arenas S (arena (formats S p)))"
    using chk unfolding FormatCheck_True_iff by simp
  then have lt: "formatSerial (arenas st arena_arg) < formatSerial (arenas st arena_arg) + 1"
    by (simp add: S FormatCreate_assigned_fields)
  show ?thesis
    using c1 ser cnt word_succ_unat [OF lt] unfolding ret by simp
qed

theorem FormatCreate_valid_witness:
  "FormatCreate align_pow2 (ResOK, 10) state1 5 1 8 FormatVarietyA
     (ClientFun 1) (ClientFun 2) (ClientFun 3) (ClientFun 4) (ClientFun 5) (ClientFun 6) FunNULL
   = Inr (ResOK, state2) \<and>
   FormatCheck align_pow2 state2 10 = Inr True \<and>
   FormatStruct.serial (formats state2 10) = 3 \<and>
   formatSerial (arenas state1 1) = 3 \<and>
   formatSerial (arenas state2 1) = 4"
  using FormatCreate_valid [OF create_state1] create_state1
  by (simp add: example_defs)

text \<open>C2. If the allocation primitive of the arena fails, the constructor returns that
  failure code and the state is the one it was called in: the ring of the arena, its
  counter, every descriptor cell, the cell behind \<open>formatReturn\<close> and the record of
  blocks handed out are unchanged. (The call reaches the allocation when \<open>formatReturn\<close>
  is not null.)\<close>

theorem FormatCreate_alloc_failure:
  assumes "formatReturn \<noteq> NULL" "fst choice \<noteq> ResOK"
  shows "FormatCreate AlignCheck choice st formatReturn arena_arg alignment_arg variety_arg
           scan_arg skip_arg move_arg isMoved_arg copy_arg pad_arg class_arg
         = Inr (fst choice, st)"
  using assms by (cases choice) (simp add: FormatCreate_unfold)

theorem FormatCreate_alloc_failure_witness:
  "FormatCreate align_pow2 (ResFail 3, 0) state2 5 1 8 FormatVarietyA
     (ClientFun 1) (ClientFun 2) (ClientFun 3) (ClientFun 4) (ClientFun 5) (ClientFun 6) FunNULL
   = Inr (ResFail 3, state2)"
  using FormatCreate_alloc_failure [of 5 "(ResFail 3, 0)" align_pow2 state2 1 8 FormatVarietyA
     "ClientFun 1" "ClientFun 2" "ClientFun 3" "ClientFun 4" "ClientFun 5" "ClientFun 6" FunNULL]
  by simp

text \<open>C3. A successful call of the constructor with a null class method was made with
  variety A and has stored the address of \<open>FormatDefaultClass\<close> in the field \<open>class\<close>;
  called on an object (a non-null address), that method returns the word stored at the
  object's address, that is, at offset zero. Such a call does succeed when its other
  arguments are valid: a non-null \<open>formatReturn\<close>, a block at a non-null address, an arena
  that carries its signature, whose counter is not at its maximum and whose ring head has a
  back link, an alignment that passes \<open>AlignCheck\<close>, six non-null methods.\<close>

theorem FormatCreate_default_class:
  "(FormatCreate AlignCheck choice st formatReturn arena_arg alignment_arg variety_arg
      scan_arg skip_arg move_arg isMoved_arg copy_arg pad_arg FunNULL = Inr (ResOK, st') \<longrightarrow>
      variety_arg = FormatVarietyA \<and>
      class' (formats st' (formatRefs st' formatReturn)) = FormatDefaultClassFun \<and>
      (object \<noteq> NULL \<longrightarrow>
         call_class client (class' (formats st' (formatRefs st' formatReturn))) mem object
         = Inr (mem object))) \<and>
   (formatReturn \<noteq> NULL \<and> p \<noteq> NULL \<and> CHECKT_Arena st arena_arg \<and>
    formatSerial (arenas st arena_arg) < formatSerial (arenas st arena_arg) + 1 \<and>
    prev' (formatRing (arenas st arena_arg)) \<noteq> None \<and> AlignCheck alignment_arg \<and>
    FUNCHECK scan_arg \<and> FUNCHECK skip_arg \<and> FUNCHECK move_arg \<and>
    FUNCHECK isMoved_arg \<and> FUNCHECK copy_arg \<and> FUNCHECK pad_arg \<longrightarrow>
      (\<exists>st''. FormatCreate AlignCheck (ResOK, p) st formatReturn arena_arg alignment_arg
                 FormatVarietyA scan_arg skip_arg move_arg isMoved_arg copy_arg pad_arg FunNULL
               = Inr (ResOK, st'')))"
proof (intro conjI impI)
  assume ok: "FormatCreate AlignCheck choice st formatReturn arena_arg alignment_arg variety_arg
      scan_arg skip_arg move_arg isMoved_arg copy_arg pad_arg FunNULL = Inr (ResOK, st')"
  from FormatCreate_ResOK_class(1) [OF ok] show "variety_arg = FormatVarietyA" by simp
  from FormatCreate_ResOK_class(2) [OF ok]
  show cl: "class' (formats st' (formatRefs st' formatReturn)) = FormatDefaultClassFun" by simp
  assume "object \<noteq> NULL"
  then show "call_class client (class' (formats st' (formatRefs st' formatReturn))) mem object
         = Inr (mem object)"
    unfolding cl by (simp add: call_class_def FormatDefaultClass_def ASSERT_def)
next
  assume "formatReturn \<noteq> NULL \<and> p \<noteq> NULL \<and> CHECKT_Arena st arena_arg \<and>
    formatSerial (arenas st arena_arg) < formatSerial (arenas st arena_arg) + 1 \<and>
    prev' (formatRing (arenas st arena_arg)) \<noteq> None \<and> AlignCheck alignment_arg \<and>
    FUNCHECK scan_arg \<and> FUNCHECK skip_arg \<and> FUNCHECK move_arg \<and>
    FUNCHECK isMoved_arg \<and> FUNCHECK copy_arg \<and> FUNCHECK pad_arg"
  then show "\<exists>st''. FormatCreate AlignCheck (ResOK, p) st formatReturn arena_arg alignment_arg
                 FormatVarietyA scan_arg skip_arg move_arg isMoved_arg copy_arg pad_arg FunNULL
               = Inr (ResOK, st'')"
    by (intro FormatCreate_succeeds) simp_all
qed

theorem FormatCreate_default_class_witness:
  "FormatCreate align_pow2 (ResOK, 10) state1 5 1 8 FormatVarietyA
     (ClientFun 1) (ClientFun 2) (ClientFun 3) (ClientFun 4) (ClientFun 5) (ClientFun 6) FunNULL
   = Inr (ResOK, state2) \<and>
   class' (formats state2 (formatRefs state2 5)) = FormatDefaultClassFun \<and>
   call_class (\<lambda>n mem object. Inr 0) (class' (formats state2 (formatRefs state2 5)))
     ((\<lambda>_. 0)(20 := 77)) 20 = Inr 77"
proof -
  let ?mem = "(\<lambda>_. 0)(20 := 77) :: Addr \<Rightarrow> Addr"
  let ?cl = "class' (formats state2 (formatRefs state2 5))"
  have "(20::Addr) \<noteq> NULL" by simp
  with FormatCreate_default_class [of align_pow2 "(ResOK, 10)" state1 5 1 8 FormatVarietyA
     "ClientFun 1" "ClientFun 2" "ClientFun 3" "ClientFun 4" "ClientFun 5" "ClientFun 6"
     state2 20 "\<lambda>n mem object. Inr 0" ?mem 10] create_state1
  have "?cl = FormatDefaultClassFun \<and>
        call_class (\<lambda>n mem object. Inr 0) ?cl ?mem 20 = Inr (?mem 20)"
    by blast
  with create_state1 show ?thesis by auto
qed

text \<open>C4. A call of the constructor with a null class method and a variety other than A
  (variety B in particular) that comes to the test of the class method, that is, a call with
  a non-null \<open>formatReturn\<close> to which the arena has supplied storage, stops at the assertion
  \<open>variety == FormatVarietyA\<close>: it returns no result code. No call with these arguments
  returns \<open>ResOK\<close>.\<close>

theorem FormatCreate_null_class_asserts:
  assumes "variety_arg \<noteq> FormatVarietyA"
  shows "(formatReturn \<noteq> NULL \<and> fst choice = ResOK \<longrightarrow>
            FormatCreate AlignCheck choice st formatReturn arena_arg alignment_arg variety_arg
              scan_arg skip_arg move_arg isMoved_arg copy_arg pad_arg FunNULL
            = Inl (AssertFail Aver_varietyA)) \<and>
         FormatCreate AlignCheck choice st formatReturn arena_arg alignment_arg variety_arg
           scan_arg skip_arg move_arg isMoved_arg copy_arg pad_arg FunNULL \<noteq> Inr (ResOK, st')"
  using assms by (cases choice) (simp add: FormatCreate_unfold)

theorem FormatCreate_null_class_asserts_witness:
  "FormatCreate align_pow2 (ResOK, 10) state1 5 1 8 FormatVarietyB
     (ClientFun 1) (ClientFun 2) (ClientFun 3) (ClientFun 4) (ClientFun 5) (ClientFun 6) FunNULL
   = Inl (AssertFail Aver_varietyA)"
  using FormatCreate_null_class_asserts [of FormatVarietyB 5 "(ResOK, 10)" align_pow2 state1 1 8
    "ClientFun 1" "ClientFun 2" "ClientFun 3" "ClientFun 4" "ClientFun 5" "ClientFun 6"]
  by simp

text \<open>C5. \<open>FormatCheck\<close> makes the checks of the spec in the order of the spec and stops
  at the first that fails, with its identity: signature, owning arena, serial number below
  the arena's counter, variety A or B, ring node, alignment, and the seven methods scan,
  skip, move, isMoved, copy, pad, class. It returns \<open>TRUE\<close> exactly when every check holds.\<close>

theorem FormatCheck_order:
  "FormatCheck AlignCheck st format =
     (case first_failure (spec_checks AlignCheck st format) of
        None \<Rightarrow> Inr True
      | Some c \<Rightarrow> Inl (AssertFail c)) \<and>
   (FormatCheck AlignCheck st format = Inr True) =
     list_all snd (spec_checks AlignCheck st format)"
  by (simp add: FormatCheck_def spec_checks_def ASSERT_def)

theorem FormatCheck_order_witness:
  "FormatCheck align_pow2 state2 10 = Inr True \<and>
   first_failure (spec_checks align_pow2 state2 10) = None \<and>
   FormatCheck align_pow2 state3 10 = Inl (AssertFail SigCheck_Format) \<and>
   first_failure (spec_checks align_pow2 state3 10) = Some SigCheck_Format"
  using FormatCheck_order [of align_pow2 state2 10] FormatCheck_order [of align_pow2 state3 10]
  by (simp add: spec_checks_def eval_defs example_defs state3_def)

text \<open>C6. \<open>FormatCheck\<close> has no side effect and is idempotent. Run as a step on the
  memory, it returns its result together with the memory it started in: no cell is changed,
  of the descriptor, of the arena or of anything else. Hence a second call right after the
  first starts in the same memory, returns the same result and again leaves that memory.
  The result is determined by the descriptor and arena cells: two memories with the same
  cells give the same result.\<close>

theorem FormatCheck_no_side_effect:
  "FormatCheck_exec AlignCheck format st = (FormatCheck AlignCheck st format, st) \<and>
   snd (FormatCheck_exec AlignCheck format st) = st \<and>
   FormatCheck_exec AlignCheck format (snd (FormatCheck_exec AlignCheck format st))
     = FormatCheck_exec AlignCheck format st \<and>
   (formats st' = formats st \<and> arenas st' = arenas st \<longrightarrow>
      fst (FormatCheck_exec AlignCheck format st') = fst (FormatCheck_exec AlignCheck format st))"
  using FormatCheck_frame [of st' st AlignCheck format] by (simp add: FormatCheck_exec_eq)

theorem FormatCheck_no_side_effect_witness:
  "FormatCheck_exec align_pow2 10 state2 = (Inr True, state2) \<and>
   FormatCheck_exec align_pow2 10 (snd (FormatCheck_exec align_pow2 10 state2))
     = (Inr True, state2) \<and>
   FormatCheck_exec align_pow2 10 state3 = (Inl (AssertFail SigCheck_Format), state3) \<and>
   fst (FormatCheck_exec align_pow2 10 (state2\<lparr>formatRefs := (\<lambda>_. 3), allocated := {}\<rparr>))
     = Inr True"
proof -
  have 3: "FormatCheck align_pow2 state3 10 = Inl (AssertFail SigCheck_Format)"
    by (simp add: FormatCheck_def ASSERT_def CHECKT_Format_def state3_def)
  from FormatCheck_no_side_effect [of align_pow2 10 state2
         "state2\<lparr>formatRefs := (\<lambda>_. 3), allocated := {}\<rparr>"]
       FormatCheck_no_side_effect [of align_pow2 10 state3 state3] check_state2 3
  show ?thesis by simp
qed

text \<open>C7 (as stated, refuted). The claim has any validation after the destruction fail.
  The destructor gives the block of the descriptor back to the arena; a later creation that
  is given this block writes \<open>FormatSig\<close> in it, and \<open>FormatCheck\<close> of the old handle
  returns \<open>TRUE\<close> again.\<close>

theorem FormatDestroy_reuse_counterexample:
  "FormatCheck align_pow2 state2 10 = Inr True \<and>
   FormatDestroy align_pow2 state2 10 = Inr state3 \<and>
   FormatCreate align_pow2 (ResOK, 10) state3 5 1 8 FormatVarietyA
     (ClientFun 1) (ClientFun 2) (ClientFun 3) (ClientFun 4) (ClientFun 5) (ClientFun 6) FunNULL
   = Inr (ResOK, state4) \<and>
   FormatCheck align_pow2 state4 10 = Inr True"
  by (intro conjI check_state2 destroy_state2 create_state3 check_state4)

text \<open>C7 (amended). For a descriptor that passes \<open>FormatCheck\<close>, \<open>FormatDestroy\<close> completes.
  In the state it leaves, \<open>FormatCheck\<close> of the descriptor fails at the signature check (the
  signature is \<open>SigInvalid\<close>), and it still fails there after any further creations and
  destructions that run to their end, none of the creations being given the block of the
  descriptor. In the state the destructor leaves, the node of the descriptor is a member of
  no ring, so the format ring of its arena does not contain it; if that ring was a ring with
  members \<open>xs\<close>, it is a ring whose members are \<open>xs\<close> without the node (the other members
  stay); and the block of the descriptor is no longer recorded as handed out by the arena.
  The destructor calls no method of the descriptor: the methods are only tested against null
  by the check on entry, so with any other non-null methods in the descriptor it completes
  as well and leaves the same state, those fields apart.\<close>

theorem FormatDestroy_retires:
  assumes chk: "FormatCheck AlignCheck st format = Inr True"
  shows "\<exists>st'. FormatDestroy AlignCheck st format = Inr st' \<and>
           FormatCheck AlignCheck st' format = Inl (AssertFail SigCheck_Format) \<and>
           FormatStruct.sig (formats st' format) = SigInvalid \<and>
           (\<forall>ops log st''.
              run AlignCheck st' ops = Inr (log, st'') \<and>
              format \<notin> set (concat (map created_at ops)) \<longrightarrow>
              FormatCheck AlignCheck st'' format = Inl (AssertFail SigCheck_Format)) \<and>
           (\<forall>h ys. is_ring st' h ys \<longrightarrow> FormatArenaRing format \<notin> set ys) \<and>
           (is_ring st (ArenaFormatRing (arena (formats st format))) xs \<longrightarrow>
              is_ring st' (ArenaFormatRing (arena (formats st format)))
                (remove1 (FormatArenaRing format) xs)) \<and>
           allocated st' = allocated st - {(arena (formats st format), format)} \<and>
           (\<forall>scan_v skip_v move_v isMoved_v copy_v pad_v class_v.
              FUNCHECK scan_v \<and> FUNCHECK skip_v \<and> FUNCHECK move_v \<and> FUNCHECK isMoved_v \<and>
              FUNCHECK copy_v \<and> FUNCHECK pad_v \<and> FUNCHECK class_v \<longrightarrow>
              FormatDestroy AlignCheck
                (with_methods st format scan_v skip_v move_v isMoved_v copy_v pad_v class_v) format
              = Inr (with_methods st' format scan_v skip_v move_v isMoved_v copy_v pad_v class_v))"
proof -
  from FormatDestroy_state [OF chk, of xs] obtain st' where
    dest: "FormatDestroy AlignCheck st format = Inr st'" and
    c1: "FormatCheck AlignCheck st' format = Inl (AssertFail SigCheck_Format)" and
    sg: "FormatStruct.sig (formats st' format) = SigInvalid" and
    out: "\<forall>h ys. is_ring st' h ys \<longrightarrow> FormatArenaRing format \<notin> set ys" and
    r': "is_ring st (ArenaFormatRing (arena (formats st format))) xs \<longrightarrow>
           is_ring st' (ArenaFormatRing (arena (formats st format)))
             (remove1 (FormatArenaRing format) xs)" and
    al: "allocated st' = allocated st - {(arena (formats st format), format)}"
    by blast
  have later: "\<forall>ops log st''.
              run AlignCheck st' ops = Inr (log, st'') \<and>
              format \<notin> set (concat (map created_at ops)) \<longrightarrow>
              FormatCheck AlignCheck st'' format = Inl (AssertFail SigCheck_Format)"
  proof (intro allI impI, elim conjE)
    fix ops log st''
    assume "run AlignCheck st' ops = Inr (log, st'')"
       "format \<notin> set (concat (map created_at ops))"
    from run_sig_invalid [OF this sg]
    show "FormatCheck AlignCheck st'' format = Inl (AssertFail SigCheck_Format)"
      by (simp add: FormatCheck_def ASSERT_def CHECKT_Format_def)
  qed
  have meth: "\<forall>scan_v skip_v move_v isMoved_v copy_v pad_v class_v.
              FUNCHECK scan_v \<and> FUNCHECK skip_v \<and> FUNCHECK move_v \<and> FUNCHECK isMoved_v \<and>
              FUNCHECK copy_v \<and> FUNCHECK pad_v \<and> FUNCHECK class_v \<longrightarrow>
              FormatDestroy AlignCheck
                (with_methods st format scan_v skip_v move_v isMoved_v copy_v pad_v class_v) format
              = Inr (with_methods st' format scan_v skip_v move_v isMoved_v copy_v pad_v class_v)"
  proof (intro allI impI, elim conjE)
    fix scan_v skip_v move_v isMoved_v copy_v pad_v class_v
    assume "FUNCHECK scan_v" "FUNCHECK skip_v" "FUNCHECK move_v" "FUNCHECK isMoved_v"
       "FUNCHECK copy_v" "FUNCHECK pad_v" "FUNCHECK class_v"
    then show "FormatDestroy AlignCheck
                (with_methods st format scan_v skip_v move_v isMoved_v copy_v pad_v class_v) format
              = Inr (with_methods st' format scan_v skip_v move_v isMoved_v copy_v pad_v class_v)"
      by (rule FormatDestroy_with_methods [OF dest])
  qed
  show ?thesis
    by (rule exI [of _ st']) (intro conjI dest c1 sg later out r' al meth)
qed

theorem FormatDestroy_retires_witness:
  "FormatCheck align_pow2 state2 10 = Inr True \<and>
   is_ring state2 (ArenaFormatRing 1) [FormatArenaRing 10] \<and>
   FormatDestroy align_pow2 state2 10 = Inr state3 \<and>
   FormatCheck align_pow2 state3 10 = Inl (AssertFail SigCheck_Format) \<and>
   is_ring state3 (ArenaFormatRing 1) [] \<and>
   allocated state3 = {} \<and>
   run align_pow2 state3
     [Create (ResOK, 11) 6 1 4 FormatVarietyB (ClientFun 1) (ClientFun 2) (ClientFun 3)
        (ClientFun 4) (ClientFun 5) (ClientFun 6) (ClientFun 7)] = Inr ([(1, 11, 4)], state5) \<and>
   FormatCheck align_pow2 state5 10 = Inl (AssertFail SigCheck_Format) \<and>
   FormatDestroy align_pow2
     (with_methods state2 10 (ClientFun 11) (ClientFun 12) (ClientFun 13) (ClientFun 14)
        (ClientFun 15) (ClientFun 16) (ClientFun 17)) 10
   = Inr (with_methods state3 10 (ClientFun 11) (ClientFun 12) (ClientFun 13) (ClientFun 14)
        (ClientFun 15) (ClientFun 16) (ClientFun 17))"
proof -
  let ?ops = "[Create (ResOK, 11) 6 1 4 FormatVarietyB (ClientFun 1) (ClientFun 2) (ClientFun 3)
        (ClientFun 4) (ClientFun 5) (ClientFun 6) (ClientFun 7)] :: 32 word operation list"
  have a: "arena (formats state2 10) = 1" by (simp add: example_defs)
  have 5: "formatRefs state5 6 = 11" "FormatStruct.serial (formats state5 11) = 4"
    by (simp_all add: state5_def format11_def)
  have run: "run align_pow2 state3 ?ops = Inr ([(1, 11, 4)], state5)"
    by (simp only: run.simps step.simps create_state3_other bindE_simps prod.case 5 if_True
          append.simps simp_thms)
  have fresh: "10 \<notin> set (concat (map created_at ?ops))" by simp
  have fc: "FUNCHECK (ClientFun n)" for n by (simp add: FUNCHECK_def)
  from FormatDestroy_retires [OF check_state2, of "[FormatArenaRing 10]"] obtain st' where
    d: "FormatDestroy align_pow2 state2 10 = Inr st'" and
    c: "FormatCheck align_pow2 st' 10 = Inl (AssertFail SigCheck_Format)" and
    later: "\<forall>ops log st''.
              run align_pow2 st' ops = Inr (log, st'') \<and>
              10 \<notin> set (concat (map created_at ops)) \<longrightarrow>
              FormatCheck align_pow2 st'' 10 = Inl (AssertFail SigCheck_Format)" and
    r: "is_ring state2 (ArenaFormatRing (arena (formats state2 10))) [FormatArenaRing 10] \<longrightarrow>
          is_ring st' (ArenaFormatRing (arena (formats state2 10)))
            (remove1 (FormatArenaRing 10) [FormatArenaRing 10])" and
    al: "allocated st' = allocated state2 - {(arena (formats state2 10), 10)}" and
    meth: "\<forall>scan_v skip_v move_v isMoved_v copy_v pad_v class_v.
              FUNCHECK scan_v \<and> FUNCHECK skip_v \<and> FUNCHECK move_v \<and> FUNCHECK isMoved_v \<and>
              FUNCHECK copy_v \<and> FUNCHECK pad_v \<and> FUNCHECK class_v \<longrightarrow>
              FormatDestroy align_pow2
                (with_methods state2 10 scan_v skip_v move_v isMoved_v copy_v pad_v class_v) 10
              = Inr (with_methods st' 10 scan_v skip_v move_v isMoved_v copy_v pad_v class_v)"
    by (elim exE conjE) (rule that)
  from d have st': "st' = state3" unfolding destroy_state2 by simp
  have 1: "FormatCheck align_pow2 state5 10 = Inl (AssertFail SigCheck_Format)"
    by (rule later [unfolded st', rule_format, OF conjI [OF run fresh]])
  from r [unfolded st' a, rule_format, OF ring_state2]
  have 2: "is_ring state3 (ArenaFormatRing 1) []" by simp
  from al have 3: "allocated state3 = {}"
    unfolding st' a by (simp add: state2_def)
  have 4: "FormatDestroy align_pow2
     (with_methods state2 10 (ClientFun 11) (ClientFun 12) (ClientFun 13) (ClientFun 14)
        (ClientFun 15) (ClientFun 16) (ClientFun 17)) 10
   = Inr (with_methods state3 10 (ClientFun 11) (ClientFun 12) (ClientFun 13) (ClientFun 14)
        (ClientFun 15) (ClientFun 16) (ClientFun 17))"
    by (rule meth [unfolded st', rule_format]) (intro conjI fc)
  from c have 0: "FormatCheck align_pow2 state3 10 = Inl (AssertFail SigCheck_Format)"
    unfolding st' .
  show ?thesis
    by (intro conjI check_state2 ring_state2 destroy_state2 0 2 3 run 1 4)
qed

text \<open>C8. \<open>FormatArena\<close> returns the field \<open>arena\<close> of the descriptor cell and checks
  nothing. The field is assigned by \<open>FormatCreate\<close> and by no later operation: after a
  successful creation, then any sequence of creations and destructions that does not give
  the block of the descriptor to a new one, then the destruction of the descriptor,
  \<open>FormatArena\<close> returns the arena given at construction at each of these points, the last
  included, where \<open>FormatCheck\<close> of the same handle fails at the signature.\<close>

theorem FormatArena_unchecked:
  assumes "FormatCreate AlignCheck choice st formatReturn arena_arg alignment_arg variety_arg
             scan_arg skip_arg move_arg isMoved_arg copy_arg pad_arg class_arg = Inr (ResOK, st1)"
      and "run AlignCheck st1 ops = Inr (log, st2)"
      and "formatRefs st1 formatReturn \<notin> set (concat (map created_at ops))"
      and "FormatDestroy AlignCheck st2 (formatRefs st1 formatReturn) = Inr st3"
  shows "FormatArena st1 (formatRefs st1 formatReturn) = arena_arg \<and>
         FormatArena st2 (formatRefs st1 formatReturn) = arena_arg \<and>
         FormatArena st3 (formatRefs st1 formatReturn) = arena_arg \<and>
         FormatCheck AlignCheck st3 (formatRefs st1 formatReturn)
           = Inl (AssertFail SigCheck_Format)"
proof -
  let ?f = "formatRefs st1 formatReturn"
  note f = FormatCreate_ResOK_facts [OF assms(1)]
  have 1: "arena (formats st1 ?f) = arena_arg" by (simp add: f(1) f(4))
  have 2: "arena (formats st2 ?f) = arena (formats st1 ?f)"
    using run_frame [OF assms(2,3)] by simp
  have 3: "arena (formats st3 ?f) = arena (formats st2 ?f)"
    by (rule FormatDestroy_frame(1) [OF assms(4)])
  have "FormatStruct.sig (formats st3 ?f) = SigInvalid"
    by (rule FormatDestroy_frame(4) [OF assms(4)])
  then have 4: "FormatCheck AlignCheck st3 ?f = Inl (AssertFail SigCheck_Format)"
    by (simp add: FormatCheck_def ASSERT_def CHECKT_Format_def)
  from 1 2 3 4 show ?thesis by (simp add: FormatArena_def)
qed

theorem FormatArena_unchecked_witness:
  "FormatCreate align_pow2 (ResOK, 10) state1 5 1 8 FormatVarietyA
     (ClientFun 1) (ClientFun 2) (ClientFun 3) (ClientFun 4) (ClientFun 5) (ClientFun 6) FunNULL
   = Inr (ResOK, state2) \<and>
   run align_pow2 state2
     [Create (ResFail 3, 0) 6 1 8 FormatVarietyA (ClientFun 1) (ClientFun 2) (ClientFun 3)
        (ClientFun 4) (ClientFun 5) (ClientFun 6) FunNULL] = Inr ([], state2) \<and>
   FormatDestroy align_pow2 state2 10 = Inr state3 \<and>
   FormatArena state2 10 = 1 \<and> FormatArena state3 10 = 1 \<and>
   FormatCheck align_pow2 state3 10 = Inl (AssertFail SigCheck_Format)"
proof -
  let ?ops = "[Create (ResFail 3, 0) 6 1 8 FormatVarietyA (ClientFun 1) (ClientFun 2)
        (ClientFun 3) (ClientFun 4) (ClientFun 5) (ClientFun 6) FunNULL] :: 32 word operation list"
  have r: "formatRefs state2 5 = 10" by (simp add: example_defs)
  have "FormatCreate align_pow2 (ResFail 3, 0) state2 6 1 8 FormatVarietyA (ClientFun 1)
          (ClientFun 2) (ClientFun 3) (ClientFun 4) (ClientFun 5) (ClientFun 6) FunNULL
        = Inr (ResFail 3, state2)"
    by (simp add: FormatCreate_unfold)
  then have run: "run align_pow2 state2 ?ops = Inr ([], state2)"
    by (simp only: run.simps step.simps bindE_simps prod.case if_False Res.simps
          append.simps simp_thms)
  have fresh: "formatRefs state2 5 \<notin> set (concat (map created_at ?ops))" by simp
  have d: "FormatDestroy align_pow2 state2 (formatRefs state2 5) = Inr state3"
    unfolding r by (rule destroy_state2)
  from FormatArena_unchecked [OF create_state1 run fresh d]
  show ?thesis
    unfolding r using create_state1 run destroy_state2 by simp
qed

text \<open>C9. Through any sequence of creations and destructions that runs to its end, the
  serial numbers issued in one arena are strictly increasing in the order of issue, hence
  pairwise distinct; each lies from the counter of the arena before the sequence up to,
  and strictly below, the counter after it; the counter never decreases; and a descriptor
  that passed \<open>FormatCheck\<close> before the sequence and whose block was not given to a new
  descriptor still has its serial number strictly below the counter of its arena.\<close>

theorem serials_strictly_increase:
  assumes "run AlignCheck st ops = Inr (log, st')"
  shows "sorted_wrt (<) (issued a log) \<and> distinct (issued a log) \<and>
         (\<forall>s \<in> set (issued a log).
            formatSerial (arenas st a) \<le> s \<and> s < formatSerial (arenas st' a)) \<and>
         formatSerial (arenas st a) \<le> formatSerial (arenas st' a) \<and>
         (FormatCheck AlignCheck st format = Inr True \<longrightarrow>
          format \<notin> set (concat (map created_at ops)) \<longrightarrow>
            FormatStruct.serial (formats st' format)
              < formatSerial (arenas st' (arena (formats st' format))))"
proof -
  note s = run_serials [OF assms, of a]
  have d: "distinct (issued a log)"
    using s strict_sorted_iff [of "issued a log"] by simp
  have live: "FormatStruct.serial (formats st' format)
              < formatSerial (arenas st' (arena (formats st' format)))"
    if chk: "FormatCheck AlignCheck st format = Inr True"
      and fresh: "format \<notin> set (concat (map created_at ops))"
  proof -
    from chk have lt: "FormatStruct.serial (formats st format)
        < formatSerial (arenas st (arena (formats st format)))"
      by (simp add: FormatCheck_True_iff)
    from run_frame [OF assms fresh] have
      eq: "arena (formats st' format) = arena (formats st format)"
          "FormatStruct.serial (formats st' format) = FormatStruct.serial (formats st format)"
      by simp_all
    from run_serials [OF assms, of "arena (formats st format)"] have
      "formatSerial (arenas st (arena (formats st format)))
         \<le> formatSerial (arenas st' (arena (formats st format)))" by simp
    with lt show ?thesis unfolding eq by simp
  qed
  from s d live show ?thesis by blast
qed

theorem serials_strictly_increase_witness:
  "run align_pow2 state1 example_ops = Inr ([(1, 10, 3), (1, 10, 4)], state4) \<and>
   issued 1 [(1, 10, 3), (1, 10, 4 :: 32 word)] = [3, 4] \<and>
   sorted_wrt (<) (issued 1 [(1, 10, 3), (1, 10, 4 :: 32 word)]) \<and>
   distinct (issued 1 [(1, 10, 3), (1, 10, 4 :: 32 word)]) \<and>
   formatSerial (arenas state1 1) = 3 \<and> formatSerial (arenas state4 1) = 5 \<and>
   FormatCheck align_pow2 state2 10 = Inr True \<and>
   run align_pow2 state2 [Destroy 10] = Inr ([], state3) \<and>
   FormatStruct.serial (formats state3 10)
     < formatSerial (arenas state3 (arena (formats state3 10)))"
proof -
  have r: "run align_pow2 state2 [Destroy 10] = Inr ([], state3)"
    by (simp only: run.simps step.simps destroy_state2 bindE_simps prod.case append.simps)
  have fresh: "10 \<notin> set (concat (map created_at [Destroy 10 :: 32 word operation]))"
    by simp
  from serials_strictly_increase [OF run_example_ops, of 1 0]
    serials_strictly_increase [OF r, of 1 10] check_state2 fresh run_example_ops r
  show ?thesis
    by (simp add: issued_def example_defs state4_def)
qed

text \<open>C10 (as stated, refuted). The claim has \<open>FormatDescribe\<close> render all seven methods,
  class included. In the example state the class method of the format at address 10 is not
  among the values passed to the writer.\<close>

theorem FormatDescribe_class_counterexample:
  "WriteFF (class' (formats state2 10)) \<notin> set (concat (map snd (FormatDescribe_args state2 10)))"
  by (simp add: FormatDescribe_args_def example_defs)

text \<open>C10 (amended). \<open>FormatDescribe\<close> passes to the writer the arena, the alignment and
  the six methods scan, skip, move, isMoved, copy and pad of the descriptor (not class), and
  its result is the writer's result, so it fails exactly when the write fails. It returns a
  result code and the stream only: no descriptor or arena cell is changed.\<close>

theorem FormatDescribe_renders:
  "FormatDescribe WriteF st format stream = WriteF stream (FormatDescribe_args st format) \<and>
   WriteFP (arena (formats st format)) \<in> set (concat (map snd (FormatDescribe_args st format))) \<and>
   WriteFW (alignment (formats st format)) \<in> set (concat (map snd (FormatDescribe_args st format))) \<and>
   WriteFF (scan (formats st format)) \<in> set (concat (map snd (FormatDescribe_args st format))) \<and>
   WriteFF (skip (formats st format)) \<in> set (concat (map snd (FormatDescribe_args st format))) \<and>
   WriteFF (move (formats st format)) \<in> set (concat (map snd (FormatDescribe_args st format))) \<and>
   WriteFF (isMoved (formats st format)) \<in> set (concat (map snd (FormatDescribe_args st format))) \<and>
   WriteFF (copy (formats st format)) \<in> set (concat (map snd (FormatDescribe_args st format))) \<and>
   WriteFF (pad (formats st format)) \<in> set (concat (map snd (FormatDescribe_args st format))) \<and>
   (fst (FormatDescribe WriteF st format stream) \<noteq> ResOK) =
     (fst (WriteF stream (FormatDescribe_args st format)) \<noteq> ResOK)"
proof -
  have eq: "FormatDescribe WriteF st format stream = WriteF stream (FormatDescribe_args st format)"
    by (cases "WriteF stream (FormatDescribe_args st format)") (simp add: FormatDescribe_def)
  show ?thesis
    unfolding eq by (simp add: FormatDescribe_args_def)
qed

theorem FormatDescribe_renders_witness:
  "FormatDescribe (\<lambda>s xs. (ResFail 7, s @ concat (map snd xs))) state2 10 []
     = (ResFail 7, [WriteFP 10, WriteFU 3, WriteFP 1, WriteFU 7, WriteFW 8,
          WriteFF (ClientFun 1), WriteFF (ClientFun 2), WriteFF (ClientFun 3),
          WriteFF (ClientFun 4), WriteFF (ClientFun 5), WriteFF (ClientFun 6),
          WriteFP 10, WriteFU 3])"
  using FormatDescribe_renders [of "\<lambda>s xs. (ResFail 7, s @ concat (map snd xs))" state2 10 "[]"]
  by (simp add: FormatDescribe_args_def example_defs)

end
